theory Spec2Isabelle
  imports Main "HOL-Library.Product_Lexorder"
begin

section \<open>Data model of the reformatter\<close>

text \<open>
  The development embeds \<^verbatim>\<open>yapf/yapflib/reformatter.py\<close>. Python exceptions are
  values of the type \<open>error\<close>; a function that can raise returns \<open>error + 'a\<close>.
\<close>

datatype error = IndexError | AttributeError | AssertionError | InternalError

text \<open>
  \<^verbatim>\<open>spaces_required_before\<close> of a token is either one integer or a list of candidate
  alignment columns (the converter \<^verbatim>\<open>_IntOrIntListConverter\<close> of the style).
\<close>

datatype spaces_spec = SpacesInt int | SpacesList "int list"

text \<open>
  A format token, with the attributes that \<^verbatim>\<open>reformatter.py\<close> reads or assigns.
  The links \<^verbatim>\<open>previous_token\<close> and \<^verbatim>\<open>next_token\<close> are the neighbours of the
  token in its line, see \<open>token_at\<close> below.
\<close>

record FormatToken =
  tok_value :: string
  lineno :: int
  column :: int
  is_comment :: bool
  is_string :: bool
  is_multiline_string :: bool
  is_docstring :: bool
  is_pseudo_paren :: bool
  is_continuation :: bool
  is_pylint_comment :: bool
  is_pytype_comment :: bool
  must_split :: bool
  total_length :: int
  whitespace_prefix :: string
  formatted_whitespace_prefix :: string
  spaces_required_before :: spaces_spec
  newlines :: "int option"

record UnwrappedLine =
  tokens :: "FormatToken list"
  depth :: int
  disable :: bool
  line_lineno :: int
  line_is_comment :: bool

text \<open>The options of the style that the reformatter queries with \<^verbatim>\<open>style.Get\<close>.\<close>

record Style =
  INDENT_WIDTH :: int
  COLUMN_LIMIT :: int
  I18N_COMMENT :: string
  I18N_FUNCTION_CALL :: "string list"
  BLANK_LINE_BEFORE_CLASS_DOCSTRING :: bool
  BLANK_LINE_BEFORE_MODULE_DOCSTRING :: bool
  BLANK_LINES_AROUND_TOP_LEVEL_DEFINITION :: int
  BLANK_LINE_BEFORE_NESTED_CLASS_OR_DEF :: bool

subsection \<open>Python primitives\<close>

text \<open>\<^verbatim>\<open>uwline.first\<close> is \<^verbatim>\<open>tokens[0]\<close> and \<^verbatim>\<open>uwline.last\<close> is \<^verbatim>\<open>tokens[-1]\<close>:
  both raise IndexError on a line without tokens.\<close>

definition uwline_first :: "UnwrappedLine \<Rightarrow> error + FormatToken" where
  "uwline_first uwline = (case tokens uwline of [] \<Rightarrow> Inl IndexError | t # _ \<Rightarrow> Inr t)"

definition uwline_last :: "UnwrappedLine \<Rightarrow> error + FormatToken" where
  "uwline_last uwline =
     (if tokens uwline = [] then Inl IndexError else Inr (last (tokens uwline)))"

text \<open>The token at a position of the line, \<open>None\<close> outside of it: the value of the
  \<^verbatim>\<open>previous_token\<close> link of the first token and of the \<^verbatim>\<open>next_token\<close> link of the
  last one.\<close>

definition token_at :: "FormatToken list \<Rightarrow> nat \<Rightarrow> FormatToken option" where
  "token_at toks i = (if i < length toks then Some (toks ! i) else None)"

definition previous_token_at :: "FormatToken list \<Rightarrow> nat \<Rightarrow> FormatToken option" where
  "previous_token_at toks i = (if i = 0 then None else token_at toks (i - 1))"

definition next_token_at :: "FormatToken list \<Rightarrow> nat \<Rightarrow> FormatToken option" where
  "next_token_at toks i = token_at toks (Suc i)"

text \<open>\<^verbatim>\<open>xs[:k]\<close> for any integer \<open>k\<close>: a negative \<open>k\<close> counts from the end.\<close>

definition slice_to :: "'a list \<Rightarrow> int \<Rightarrow> 'a list" where
  "slice_to xs k = (if k < 0 then take (nat (int (length xs) + k)) xs else take (nat k) xs)"

section \<open>The single-line fast path\<close>

text \<open>
  \<^verbatim>\<open>_CanPlaceOnSingleLine(uwline)\<close>. A trailing pylint or pytype comment is left out
  of the length test; when no token is in front of it the answer is \<open>True\<close>.
\<close>

definition CanPlaceOnSingleLine :: "Style \<Rightarrow> UnwrappedLine \<Rightarrow> error + bool" where
  "CanPlaceOnSingleLine sty uwline =
     (let indent_amt = INDENT_WIDTH sty * depth uwline in
      case uwline_last uwline of
        Inl e \<Rightarrow> Inl e
      | Inr lst \<Rightarrow>
          (let (lst', last_index) =
                 (if is_pylint_comment lst \<or> is_pytype_comment lst
                  then (previous_token_at (tokens uwline) (length (tokens uwline) - 1), - 2)
                  else (Some lst, - 1))
           in case lst' of
                None \<Rightarrow> Inr True
              | Some l \<Rightarrow>
                  Inr (total_length l + indent_amt \<le> COLUMN_LIMIT sty \<and>
                       \<not> list_ex is_comment (slice_to (tokens uwline) last_index))))"

subsection \<open>Python string primitives\<close>

definition NL :: char where
  "NL = CHR 0x0A"

definition SP :: char where
  "SP = CHR 0x20"

text \<open>\<^verbatim>\<open>s.startswith(p)\<close>.\<close>

definition startswith :: "string \<Rightarrow> string \<Rightarrow> bool" where
  "startswith s p = (take (length p) s = p)"

text \<open>\<^verbatim>\<open>s.endswith(p)\<close>.\<close>

definition endswith :: "string \<Rightarrow> string \<Rightarrow> bool" where
  "endswith s p = (length p \<le> length s \<and> drop (length s - length p) s = p)"

text \<open>\<^verbatim>\<open>s.rfind(c)\<close> for a single character: the last position of \<open>c\<close>, \<open>None\<close> for
  Python's \<open>-1\<close>.\<close>

definition rfind :: "string \<Rightarrow> char \<Rightarrow> nat option" where
  "rfind s c =
     (let idxs = filter (\<lambda>i. s ! i = c) [0..<length s]
      in if idxs = [] then None else Some (last idxs))"

text \<open>\<^verbatim>\<open>s.count(c)\<close> for a single character.\<close>

definition count_char :: "string \<Rightarrow> char \<Rightarrow> int" where
  "count_char s c = int (length (filter (\<lambda>x. x = c) s))"

text \<open>\<^verbatim>\<open>s.split(c)\<close> for a single character: always at least one piece.\<close>

fun split_on :: "char \<Rightarrow> string \<Rightarrow> string list" where
  "split_on c [] = [[]]"
| "split_on c (x # xs) =
     (if x = c then [] # split_on c xs
      else (case split_on c xs of
              [] \<Rightarrow> [[x]]
            | h # t \<Rightarrow> (x # h) # t))"

text \<open>\<^verbatim>\<open>sep.join(pieces)\<close>.\<close>

fun join :: "string \<Rightarrow> string list \<Rightarrow> string" where
  "join sep [] = []"
| "join sep [x] = x"
| "join sep (x # y # ys) = x @ sep @ join sep (y # ys)"

text \<open>The white space that \<^verbatim>\<open>strip()\<close> and \<^verbatim>\<open>rstrip()\<close> remove, among the characters
  below 128: tab, line feed, vertical tab, form feed, carriage return, the separators
  \<open>0x1C\<close> to \<open>0x1F\<close>, and the space.\<close>

definition is_space :: "char \<Rightarrow> bool" where
  "is_space c =
     (c \<in> {CHR 0x09, CHR 0x0A, CHR 0x0B, CHR 0x0C, CHR 0x0D,
            CHR 0x1C, CHR 0x1D, CHR 0x1E, CHR 0x1F, CHR 0x20})"

definition lstrip :: "string \<Rightarrow> string" where
  "lstrip s = dropWhile is_space s"

definition rstrip :: "string \<Rightarrow> string" where
  "rstrip s = rev (dropWhile is_space (rev s))"

definition strip :: "string \<Rightarrow> string" where
  "strip s = rstrip (lstrip s)"

text \<open>\<^verbatim>\<open>s.lstrip('\n')\<close>.\<close>

definition lstrip_newlines :: "string \<Rightarrow> string" where
  "lstrip_newlines s = dropWhile (\<lambda>c. c = NL) s"

text \<open>\<^verbatim>\<open>' ' * n\<close>: empty for a negative \<open>n\<close>.\<close>

definition spaces :: "int \<Rightarrow> string" where
  "spaces n = replicate (nat n) SP"

text \<open>\<^verbatim>\<open>v in s\<close> for strings: \<open>v\<close> occurs in \<open>s\<close> as a contiguous piece.\<close>

definition substring_of :: "string \<Rightarrow> string \<Rightarrow> bool" where
  "substring_of v s = list_ex (\<lambda>i. take (length v) (drop i s) = v) [0..<Suc (length s)]"

text \<open>\<^verbatim>\<open>max(xs)\<close> of a list that is not empty.\<close>

definition list_max :: "int list \<Rightarrow> int" where
  "list_max xs = fold max (tl xs) (hd xs)"

section \<open>Composing the final text\<close>

text \<open>
  The text that one token contributes in \<^verbatim>\<open>_FormatFinalLines\<close>. A pseudo parenthesis
  contributes at most one space and reads both of its neighbours; a missing neighbour is
  an AttributeError, in the order in which Python evaluates the conditions.
\<close>

definition token_text :: "FormatToken list \<Rightarrow> nat \<Rightarrow> error + string" where
  "token_text toks i =
     (let tok = toks ! i in
      if \<not> is_pseudo_paren tok then Inr (formatted_whitespace_prefix tok @ tok_value tok)
      else
        (case next_token_at toks i of
           None \<Rightarrow> Inl AttributeError
         | Some nxt \<Rightarrow>
             if \<not> startswith (whitespace_prefix nxt) [NL] \<and>
                \<not> startswith (whitespace_prefix nxt) [SP]
             then
               (case previous_token_at toks i of
                  None \<Rightarrow> Inl AttributeError
                | Some prv \<Rightarrow>
                    if tok_value prv = '':'' \<or> \<not> substring_of (tok_value nxt) '',}])''
                    then Inr [SP] else Inr [])
             else Inr []))"

text \<open>The inner loop: the pieces of the tokens of a line, joined.\<close>

fun format_tokens :: "FormatToken list \<Rightarrow> nat list \<Rightarrow> error + string" where
  "format_tokens toks [] = Inr []"
| "format_tokens toks (i # is) =
     (case token_text toks i of
        Inl e \<Rightarrow> Inl e
      | Inr piece \<Rightarrow>
          (case format_tokens toks is of
             Inl e \<Rightarrow> Inl e
           | Inr r \<Rightarrow> Inr (piece @ r)))"

definition format_line :: "UnwrappedLine \<Rightarrow> error + string" where
  "format_line line = format_tokens (tokens line) [0..<length (tokens line)]"

text \<open>
  The outer loop of \<^verbatim>\<open>_FormatFinalLines\<close>, with \<^verbatim>\<open>formatted_code\<close> as accumulator.
  \<^verbatim>\<open>verifier.VerifyCode\<close> is a parameter: \<open>VerifyCode text\<close> is false when the call
  raises. It is called on the text of the line just formatted.
\<close>

fun format_lines :: "(string \<Rightarrow> bool) \<Rightarrow> bool \<Rightarrow> UnwrappedLine list \<Rightarrow> string list
                       \<Rightarrow> error + string list" where
  "format_lines VerifyCode verify [] formatted_code = Inr formatted_code"
| "format_lines VerifyCode verify (line # rest) formatted_code =
     (case format_line line of
        Inl e \<Rightarrow> Inl e
      | Inr text \<Rightarrow>
          if verify \<and> \<not> VerifyCode text then Inl InternalError
          else format_lines VerifyCode verify rest (formatted_code @ [text]))"

definition FormatFinalLines :: "(string \<Rightarrow> bool) \<Rightarrow> UnwrappedLine list \<Rightarrow> bool
                                  \<Rightarrow> error + string" where
  "FormatFinalLines VerifyCode final_lines verify =
     (case format_lines VerifyCode verify final_lines [] of
        Inl e \<Rightarrow> Inl e
      | Inr formatted_code \<Rightarrow> Inr (concat formatted_code @ [NL]))"

text \<open>The text of a line when the line can be formatted, and whether it can.\<close>

definition formats :: "UnwrappedLine \<Rightarrow> bool" where
  "formats l = (case format_line l of Inl _ \<Rightarrow> False | Inr _ \<Rightarrow> True)"

definition line_text :: "UnwrappedLine \<Rightarrow> string" where
  "line_text l = (case format_line l of Inl _ \<Rightarrow> [] | Inr t \<Rightarrow> t)"

section \<open>Aligning trailing comments\<close>

text \<open>
  \<^verbatim>\<open>_AlignTrailingComments(final_lines)\<close>. The scan of one token of a line of the block:
  the state is the maximal line length so far, the content of the current physical line
  and the lengths in front of the comments of the line.
\<close>

definition scan_token :: "FormatToken \<Rightarrow> int \<times> string \<times> int list \<Rightarrow> int \<times> string \<times> int list" where
  "scan_token line_tok acc =
     (case acc of (max_line_length, line_content, pc_line_lengths) \<Rightarrow>
        (let whitespace_prefix = formatted_whitespace_prefix line_tok;
             (mx, content, whitespace_prefix') =
               (case rfind whitespace_prefix NL of
                  None \<Rightarrow> (max_line_length, line_content, whitespace_prefix)
                | Some newline_index \<Rightarrow>
                    (max max_line_length (int (length line_content)), [],
                     drop (Suc newline_index) whitespace_prefix))
         in if is_comment line_tok
            then (mx, content, pc_line_lengths @ [int (length content)])
            else (mx, content @ whitespace_prefix' @ tok_value line_tok, pc_line_lengths)))"

text \<open>The scan of one line of the block.\<close>

definition scan_line :: "UnwrappedLine \<Rightarrow> int \<Rightarrow> int \<times> int list" where
  "scan_line this_line max_line_length =
     (case foldl (\<lambda>acc t. scan_token t acc) (max_line_length, [], []) (tokens this_line) of
        (mx, content, pc_line_lengths) \<Rightarrow>
          (if pc_line_lengths \<noteq> [] then max mx (list_max pc_line_lengths) else mx,
           pc_line_lengths))"

text \<open>
  The \<^verbatim>\<open>while True\<close> loop that collects the block, on the lines from the current one
  on: it ends at the end of the input or in front of a line that starts with an empty
  line, which the first line of the block may do.
\<close>

fun collect_block :: "UnwrappedLine list \<Rightarrow> int list list \<Rightarrow> int
                        \<Rightarrow> error + (int list list \<times> int)" where
  "collect_block [] all_pc_line_lengths max_line_length =
     Inr (all_pc_line_lengths, max_line_length)"
| "collect_block (this_line # rest) all_pc_line_lengths max_line_length =
     (if tokens this_line = [] then Inl AssertionError
      else if all_pc_line_lengths \<noteq> [] \<and>
              startswith (formatted_whitespace_prefix (hd (tokens this_line))) [NL, NL]
      then Inr (all_pc_line_lengths, max_line_length)
      else if disable this_line
      then collect_block rest (all_pc_line_lengths @ [[]]) max_line_length
      else (case scan_line this_line max_line_length of
              (mx, pc_line_lengths) \<Rightarrow>
                collect_block rest (all_pc_line_lengths @ [pc_line_lengths]) mx))"

text \<open>The aligned column, from the candidate columns of the comment that opened the
  block.\<close>

definition aligned_column :: "int list \<Rightarrow> int \<Rightarrow> int" where
  "aligned_column cols max_line_length =
     (let m = max_line_length + 2
      in case find (\<lambda>potential_col. potential_col > m) cols of
           None \<Rightarrow> m
         | Some aligned_col \<Rightarrow> aligned_col)"

text \<open>The new text of a comment: every line of the comment is moved to the column.\<close>

definition align_comment :: "int \<Rightarrow> int \<Rightarrow> FormatToken \<Rightarrow> FormatToken" where
  "align_comment aligned_col pc line_tok =
     (let line_content =
            join [NL]
              (case split_on NL (tok_value line_tok) of
                 [] \<Rightarrow> []
               | c # cs \<Rightarrow>
                   (spaces (aligned_col - pc - 1) @ strip c)
                     # map (\<lambda>comment_line. spaces (aligned_col - 1) @ strip comment_line) cs);
          existing_whitespace_prefix = lstrip_newlines (formatted_whitespace_prefix line_tok)
      in line_tok\<lparr>tok_value :=
           (if startswith line_content existing_whitespace_prefix
            then drop (length existing_whitespace_prefix) line_content
            else line_content)\<rparr>)"

text \<open>The loop over the tokens of a line of the block, with its two assertions, and
  the assertion after it.\<close>

fun align_tokens :: "int \<Rightarrow> int list \<Rightarrow> FormatToken list \<Rightarrow> nat
                       \<Rightarrow> error + (FormatToken list \<times> nat)" where
  "align_tokens aligned_col pcs [] k = Inr ([], k)"
| "align_tokens aligned_col pcs (line_tok # ts) k =
     (if is_comment line_tok then
        (if \<not> k < length pcs then Inl AssertionError
         else if \<not> pcs ! k < aligned_col then Inl AssertionError
         else (case align_tokens aligned_col pcs ts (Suc k) of
                 Inl e \<Rightarrow> Inl e
               | Inr (ts', k') \<Rightarrow> Inr (align_comment aligned_col (pcs ! k) line_tok # ts', k')))
      else (case align_tokens aligned_col pcs ts k of
              Inl e \<Rightarrow> Inl e
            | Inr (ts', k') \<Rightarrow> Inr (line_tok # ts', k')))"

definition align_line :: "int \<Rightarrow> int list \<Rightarrow> UnwrappedLine \<Rightarrow> error + UnwrappedLine" where
  "align_line aligned_col pcs this_line =
     (if pcs = [] then Inr this_line
      else (case align_tokens aligned_col pcs (tokens this_line) 0 of
              Inl e \<Rightarrow> Inl e
            | Inr (ts, k) \<Rightarrow>
                if k = length pcs then Inr (this_line\<lparr>tokens := ts\<rparr>)
                else Inl AssertionError))"

fun align_block :: "int \<Rightarrow> int list list \<Rightarrow> UnwrappedLine list \<Rightarrow> error + UnwrappedLine list" where
  "align_block aligned_col [] ls = Inr []"
| "align_block aligned_col (pcs # r) [] = Inl IndexError"
| "align_block aligned_col (pcs # r) (l # ls) =
     (case align_line aligned_col pcs l of
        Inl e \<Rightarrow> Inl e
      | Inr l' \<Rightarrow>
          (case align_block aligned_col r ls of
             Inl e \<Rightarrow> Inl e
           | Inr ls' \<Rightarrow> Inr (l' # ls')))"

text \<open>The comment tokens that open a block: their \<^verbatim>\<open>spaces_required_before\<close> is a
  list.\<close>

definition alignable :: "FormatToken \<Rightarrow> bool" where
  "alignable tok =
     (is_comment tok \<and> (case spaces_required_before tok of SpacesList _ \<Rightarrow> True | SpacesInt _ \<Rightarrow> False)
      \<and> startswith (tok_value tok) ''#'')"

definition candidate_columns :: "FormatToken \<Rightarrow> int list" where
  "candidate_columns tok = (case spaces_required_before tok of SpacesList cols \<Rightarrow> cols | SpacesInt _ \<Rightarrow> [])"

text \<open>The outer loop, on the lines from \<^verbatim>\<open>final_lines_index\<close> on.\<close>

function AlignTrailingComments :: "UnwrappedLine list \<Rightarrow> error + UnwrappedLine list" where
  "AlignTrailingComments [] = Inr []"
| "AlignTrailingComments (line # rest) =
     (if tokens line = [] then Inl AssertionError
      else
        (case find alignable (tokens line) of
           None \<Rightarrow>
             (case AlignTrailingComments rest of
                Inl e \<Rightarrow> Inl e
              | Inr r \<Rightarrow> Inr (line # r))
         | Some tok \<Rightarrow>
             (case collect_block (line # rest) [] 0 of
                Inl e \<Rightarrow> Inl e
              | Inr (all_pc_line_lengths, max_line_length) \<Rightarrow>
                  (let aligned_col = aligned_column (candidate_columns tok) max_line_length;
                       n = length all_pc_line_lengths
                   in case align_block aligned_col all_pc_line_lengths (take n (line # rest)) of
                        Inl e \<Rightarrow> Inl e
                      | Inr block \<Rightarrow>
                          (case AlignTrailingComments (drop n (line # rest)) of
                             Inl e \<Rightarrow> Inl e
                           | Inr r \<Rightarrow> Inr (block @ r))))))"
  by pat_completeness auto


section \<open>The format decision state\<close>

text \<open>
  Modelled from the spec: the class \<^verbatim>\<open>FormatDecisionState\<close> lives in
  \<^verbatim>\<open>format_decision_state.py\<close>, which is not among the sources. The spec gives a
  decision state a cursor into the tokens of its line, the emitted width, an indent stack
  and a bracket-depth stack, and a trailing suppressing-comment flag. The reformatter
  itself reads \<^verbatim>\<open>next_token\<close> and assigns \<^verbatim>\<open>ignore_stack_for_comparison\<close>.
  A state refers to its line; the line is an argument of every operation below.
\<close>

record Layout =
  column_of :: int
  indent_stack :: "int list"
  bracket_stack :: "int list"
  trailing_flag :: bool

record FormatDecisionState =
  next_index :: nat
  layout :: Layout
  ignore_stack_for_comparison :: bool

text \<open>
  The operations that the reformatter calls and that are defined outside of it are
  parameters: the decisions and costs of \<^verbatim>\<open>FormatDecisionState\<close>
  (\<^verbatim>\<open>MustSplit\<close>, \<^verbatim>\<open>CanSplit\<close>, the penalty and the next layout of
  \<^verbatim>\<open>AddTokenToState\<close>, the white space it commits to a token), the methods of
  \<^verbatim>\<open>FormatToken\<close>, the two regular expression searches, the merge predicate of
  \<^verbatim>\<open>line_joiner\<close>, the token made for a synthesized semicolon, and the verifier.
\<close>

record Collaborators =
  style :: Style
  initial_layout :: "UnwrappedLine \<Rightarrow> int \<Rightarrow> Layout"
  must_split_of :: "UnwrappedLine \<Rightarrow> FormatDecisionState \<Rightarrow> bool"
  can_split_of :: "UnwrappedLine \<Rightarrow> FormatDecisionState \<Rightarrow> bool \<Rightarrow> bool"
  add_token_of :: "UnwrappedLine \<Rightarrow> FormatDecisionState \<Rightarrow> bool \<Rightarrow> bool \<Rightarrow> int \<times> Layout"
  place_token_of :: "UnwrappedLine \<Rightarrow> FormatDecisionState \<Rightarrow> bool \<Rightarrow> bool
                       \<Rightarrow> FormatToken \<Rightarrow> FormatToken"
  tok_AddWhitespacePrefix :: "int \<Rightarrow> int \<Rightarrow> FormatToken \<Rightarrow> FormatToken"
  tok_AdjustNewlinesBefore :: "int \<Rightarrow> FormatToken \<Rightarrow> FormatToken"
  tok_RetainHorizontalSpacing :: "FormatToken list \<Rightarrow> nat \<Rightarrow> int \<Rightarrow> int \<Rightarrow> FormatToken"
  re_match :: "string \<Rightarrow> string \<Rightarrow> bool"
  re_search_line_too_long :: "string \<Rightarrow> bool"
  CanMergeMultipleLines :: "UnwrappedLine list \<Rightarrow> bool \<Rightarrow> bool"
  SemiToken :: "int \<Rightarrow> int \<Rightarrow> FormatToken"
  VerifyCode :: "string \<Rightarrow> bool"

text \<open>
  Modelled from the spec: a new state has its cursor on the first token,
  \<^verbatim>\<open>MoveStateToNextToken\<close> advances the cursor with no layout decision, and
  \<^verbatim>\<open>AddTokenToState\<close> places the next token: it returns the penalty, advances the
  cursor by one token and, unless \<^verbatim>\<open>dry_run\<close> is set, commits the white space to
  that token. Every caller in the reformatter checks \<^verbatim>\<open>next_token\<close> first.
\<close>

definition new_state :: "Collaborators \<Rightarrow> UnwrappedLine \<Rightarrow> int \<Rightarrow> FormatDecisionState" where
  "new_state ops uwline first_indent =
     \<lparr>next_index = 0, layout = initial_layout ops uwline first_indent,
      ignore_stack_for_comparison = False\<rparr>"

definition next_token :: "UnwrappedLine \<Rightarrow> FormatDecisionState \<Rightarrow> FormatToken option" where
  "next_token uwline st = token_at (tokens uwline) (next_index st)"

definition MoveStateToNextToken :: "FormatDecisionState \<Rightarrow> FormatDecisionState" where
  "MoveStateToNextToken st = st\<lparr>next_index := Suc (next_index st)\<rparr>"

definition MustSplit :: "Collaborators \<Rightarrow> UnwrappedLine \<Rightarrow> FormatDecisionState \<Rightarrow> bool" where
  "MustSplit ops uwline st = must_split_of ops uwline st"

definition CanSplit :: "Collaborators \<Rightarrow> UnwrappedLine \<Rightarrow> FormatDecisionState \<Rightarrow> bool \<Rightarrow> bool" where
  "CanSplit ops uwline st must_split_now = can_split_of ops uwline st must_split_now"

definition AddTokenToState :: "Collaborators \<Rightarrow> UnwrappedLine \<Rightarrow> FormatDecisionState
    \<Rightarrow> bool \<Rightarrow> bool \<Rightarrow> bool \<Rightarrow> int \<times> FormatDecisionState \<times> UnwrappedLine" where
  "AddTokenToState ops uwline st newline dry_run must_split_now =
     (case add_token_of ops uwline st newline must_split_now of
        (penalty, lay) \<Rightarrow>
          (penalty,
           st\<lparr>next_index := Suc (next_index st), layout := lay\<rparr>,
           if dry_run then uwline
           else uwline\<lparr>tokens := (tokens uwline)
                  [next_index st :=
                     place_token_of ops uwline st newline must_split_now
                       (tokens uwline ! next_index st)]\<rparr>))"

text \<open>
  Modelled from the spec: the equality of two states, which the set \<^verbatim>\<open>seen\<close> of the
  search uses. The spec defines it over the cursor position, the indent stack, the
  bracket-depth stack and the trailing suppressing-comment flag. The flag that the
  reformatter sets is named \<^verbatim>\<open>ignore_stack_for_comparison\<close>: when either state
  carries it, the two stacks are left out of the comparison.
\<close>

definition state_eq :: "FormatDecisionState \<Rightarrow> FormatDecisionState \<Rightarrow> bool" where
  "state_eq a b =
     (next_index a = next_index b \<and>
      trailing_flag (layout a) = trailing_flag (layout b) \<and>
      (ignore_stack_for_comparison a \<or> ignore_stack_for_comparison b \<or>
       indent_stack (layout a) = indent_stack (layout b) \<and>
       bracket_stack (layout a) = bracket_stack (layout b)))"

section \<open>The search of the solution space\<close>

text \<open>\<^verbatim>\<open>_StateNode\<close>, \<^verbatim>\<open>_OrderedPenalty\<close> and \<^verbatim>\<open>_QueueItem\<close>. The constructor of
  a node clones the state; a value is its own clone.\<close>

datatype StateNode =
  StateNode (node_state: FormatDecisionState) (node_newline: bool) (node_previous: "StateNode option")

datatype OrderedPenalty = OrderedPenalty (op_penalty: int) (op_count: nat)

datatype QueueItem = QueueItem (ordered_penalty: OrderedPenalty) (state_node: StateNode)

text \<open>
  The queue is a \<^verbatim>\<open>heapq\<close>: \<^verbatim>\<open>p_queue[0]\<close> is its least item and
  \<^verbatim>\<open>heappop\<close> removes it. It is modelled by the list of its items in increasing
  order of their priority, the pair of penalty and count in lexicographic order, which is
  what \<^verbatim>\<open>heapq\<close> compares first in two items. Two items of the queue never have the
  same count, as is proved below, so that the nodes themselves are never compared.
\<close>

definition priority :: "QueueItem \<Rightarrow> int \<times> nat" where
  "priority item = (op_penalty (ordered_penalty item), op_count (ordered_penalty item))"

definition heappush :: "QueueItem list \<Rightarrow> QueueItem \<Rightarrow> QueueItem list" where
  "heappush p_queue item = insort_key priority item p_queue"

text \<open>\<^verbatim>\<open>_AddNextStateToQueue\<close>: returns the new count and the new queue.\<close>

definition AddNextStateToQueue :: "Collaborators \<Rightarrow> UnwrappedLine \<Rightarrow> int \<Rightarrow> StateNode \<Rightarrow> bool
    \<Rightarrow> nat \<Rightarrow> QueueItem list \<Rightarrow> nat \<times> QueueItem list" where
  "AddNextStateToQueue ops uwline penalty previous_node newline count p_queue =
     (let must_split_now = MustSplit ops uwline (node_state previous_node) in
      if newline \<and> \<not> CanSplit ops uwline (node_state previous_node) must_split_now
      then (count, p_queue)
      else if \<not> newline \<and> must_split_now
      then (count, p_queue)
      else
        (case AddTokenToState ops uwline (node_state previous_node) newline True must_split_now of
           (delta, st, _) \<Rightarrow>
             (count + 1,
              heappush p_queue
                (QueueItem (OrderedPenalty (penalty + delta) count)
                   (StateNode st newline (Some previous_node))))))"

text \<open>
  One iteration of the \<^verbatim>\<open>while p_queue\<close> loop of \<^verbatim>\<open>_AnalyzeSolutionSpace\<close>, on the
  count, the set \<^verbatim>\<open>seen\<close> and the queue: the loop ends with the node at the head of
  the queue when that node has no next token (\<open>Found\<close>), or with an empty queue
  (\<open>NotFound\<close>).
\<close>

datatype step_result =
  Found StateNode | NotFound | Continue "nat \<times> FormatDecisionState list \<times> QueueItem list"

definition search_step :: "Collaborators \<Rightarrow> UnwrappedLine
    \<Rightarrow> nat \<times> FormatDecisionState list \<times> QueueItem list \<Rightarrow> step_result" where
  "search_step ops uwline cfg =
     (case cfg of (count, seen, p_queue) \<Rightarrow>
        (case p_queue of
           [] \<Rightarrow> NotFound
         | item # rest \<Rightarrow>
             (let penalty = op_penalty (ordered_penalty item);
                  node = state_node item
              in if next_token uwline (node_state node) = None then Found node
                 else
                   (let node' =
                          (if count > 10000
                           then StateNode ((node_state node)\<lparr>ignore_stack_for_comparison := True\<rparr>)
                                  (node_newline node) (node_previous node)
                           else node)
                    in if list_ex (state_eq (node_state node')) seen
                       then Continue (count, seen, rest)
                       else
                         (case AddNextStateToQueue ops uwline penalty node' False count rest of
                            (count1, q1) \<Rightarrow>
                              (case AddNextStateToQueue ops uwline penalty node' True count1 q1 of
                                 (count2, q2) \<Rightarrow>
                                   Continue (count2, node_state node' # seen, q2)))))))"

function search_loop :: "Collaborators \<Rightarrow> UnwrappedLine
    \<Rightarrow> nat \<times> FormatDecisionState list \<times> QueueItem list \<Rightarrow> StateNode option" where
  "search_loop ops uwline cfg =
     (case search_step ops uwline cfg of
        Found node \<Rightarrow> Some node
      | NotFound \<Rightarrow> None
      | Continue cfg' \<Rightarrow> search_loop ops uwline cfg')"
  by pat_completeness auto

text \<open>The start element, and the configurations that the loop reaches from it.\<close>

definition initial_config :: "FormatDecisionState \<Rightarrow> nat \<times> FormatDecisionState list \<times> QueueItem list" where
  "initial_config initial_state =
     (1, [], heappush [] (QueueItem (OrderedPenalty 0 0) (StateNode initial_state False None)))"

inductive reachable :: "Collaborators \<Rightarrow> UnwrappedLine \<Rightarrow> FormatDecisionState
    \<Rightarrow> nat \<times> FormatDecisionState list \<times> QueueItem list \<Rightarrow> bool"
  for ops uwline initial_state where
  reachable_initial: "reachable ops uwline initial_state (initial_config initial_state)"
| reachable_step: "reachable ops uwline initial_state cfg \<Longrightarrow>
     search_step ops uwline cfg = Continue cfg' \<Longrightarrow>
     reachable ops uwline initial_state cfg'"

text \<open>The invariant of the queue: ordered by priority, with counts that are pairwise
  distinct and below the running count.\<close>

definition item_count :: "QueueItem \<Rightarrow> nat" where
  "item_count item = op_count (ordered_penalty item)"

definition queue_inv :: "nat \<Rightarrow> QueueItem list \<Rightarrow> bool" where
  "queue_inv count q =
     (sorted (map priority q) \<and> distinct (map item_count q) \<and>
      list_all (\<lambda>item. item_count item < count) q)"

text \<open>A node is reached from its predecessor by an edge that the predecessor allows.\<close>

definition edge_ok :: "Collaborators \<Rightarrow> UnwrappedLine \<Rightarrow> StateNode \<Rightarrow> bool" where
  "edge_ok ops uwline node =
     (case node_previous node of
        None \<Rightarrow> True
      | Some p \<Rightarrow>
          if node_newline node
          then CanSplit ops uwline (node_state p) (MustSplit ops uwline (node_state p))
          else \<not> MustSplit ops uwline (node_state p))"

text \<open>The measure of the loop: each item weighs three to the power of the number of
  tokens that its state has not placed.\<close>

definition remaining :: "UnwrappedLine \<Rightarrow> QueueItem \<Rightarrow> nat" where
  "remaining uwline item = length (tokens uwline) - next_index (node_state (state_node item))"

definition queue_weight :: "UnwrappedLine \<Rightarrow> QueueItem list \<Rightarrow> nat" where
  "queue_weight uwline q = sum_list (map (\<lambda>item. 3 ^ remaining uwline item) q)"

section \<open>Retaining the spacing of a line\<close>

text \<open>The update of the first and of the last token of a line; a line without tokens
  is left as it is.\<close>

definition map_first :: "(FormatToken \<Rightarrow> FormatToken) \<Rightarrow> UnwrappedLine \<Rightarrow> UnwrappedLine" where
  "map_first f uwline =
     uwline\<lparr>tokens := (case tokens uwline of [] \<Rightarrow> [] | t # ts \<Rightarrow> f t # ts)\<rparr>"

definition map_last :: "(FormatToken \<Rightarrow> FormatToken) \<Rightarrow> UnwrappedLine \<Rightarrow> UnwrappedLine" where
  "map_last f uwline =
     (if tokens uwline = [] then uwline
      else uwline\<lparr>tokens := butlast (tokens uwline) @ [f (last (tokens uwline))]\<rparr>)"

text \<open>\<^verbatim>\<open>_RetainHorizontalSpacing\<close>: the method of the token is called on every token in
  turn, with the column of the first token as it is at that moment.\<close>

definition RetainHorizontalSpacing :: "Collaborators \<Rightarrow> UnwrappedLine \<Rightarrow> UnwrappedLine" where
  "RetainHorizontalSpacing ops uwline =
     uwline\<lparr>tokens :=
       foldl (\<lambda>toks i. toks[i := tok_RetainHorizontalSpacing ops toks i (column (hd toks))
                                    (depth uwline)])
         (tokens uwline) [0..<length (tokens uwline)]\<rparr>"

text \<open>
  \<^verbatim>\<open>_RetainRequiredVerticalSpacingBetweenTokens\<close>. \<open>prev_previous\<close> is the
  \<^verbatim>\<open>previous_token\<close> link of \<open>prev_tok\<close>; \<open>lines\<close> is the set of the lines that may
  be modified, or \<open>None\<close>.
\<close>

definition RetainRequiredVerticalSpacingBetweenTokens ::
    "Collaborators \<Rightarrow> FormatToken \<Rightarrow> FormatToken option \<Rightarrow> FormatToken option
      \<Rightarrow> int set option \<Rightarrow> error + FormatToken" where
  "RetainRequiredVerticalSpacingBetweenTokens ops cur_tok prev_tok prev_previous lines =
     (case prev_tok of
        None \<Rightarrow> Inr cur_tok
      | Some prev \<Rightarrow>
          (case (if is_string prev
                 then Inr (lineno prev + count_char (tok_value prev) NL)
                 else if is_pseudo_paren prev
                 then (case prev_previous of
                         None \<Rightarrow> Inl AttributeError
                       | Some pp \<Rightarrow>
                           if \<not> is_multiline_string pp then Inr (lineno pp)
                           else Inr (lineno prev))
                 else Inr (lineno prev)) of
             Inl e \<Rightarrow> Inl e
           | Inr prev_lineno0 \<Rightarrow>
               (let cur_lineno =
                      (if is_comment cur_tok
                       then lineno cur_tok - count_char (tok_value cur_tok) NL
                       else lineno cur_tok);
                    prev_lineno =
                      (if endswith (tok_value prev) [CHR 0x5C]
                       then prev_lineno0 + count_char (tok_value prev) NL
                       else prev_lineno0);
                    required_newlines = cur_lineno - prev_lineno;
                    required_newlines' =
                      (if is_comment cur_tok \<and> \<not> is_comment prev then required_newlines
                       else
                         (case lines of
                            None \<Rightarrow> required_newlines
                          | Some ls \<Rightarrow>
                              if ls \<noteq> {} \<and> (cur_lineno \<in> ls \<or> prev_lineno \<in> ls)
                              then
                                (let desired_newlines = count_char (whitespace_prefix cur_tok) NL;
                                     desired_newlines' =
                                       (if desired_newlines < required_newlines
                                        then required_newlines else desired_newlines);
                                     deletable_lines =
                                       int (card (ls \<inter> {prev_lineno + 1 ..< cur_lineno}))
                                 in max (required_newlines - deletable_lines) desired_newlines')
                              else required_newlines))
                in Inr (tok_AdjustNewlinesBefore ops required_newlines' cur_tok))))"

text \<open>
  The loop of \<^verbatim>\<open>_RetainRequiredVerticalSpacing\<close> over the tokens of the line.
  \<open>in_front\<close> is the token in front of the current one in this line, which is the
  \<^verbatim>\<open>previous_token\<close> link of the next \<open>prev_tok\<close>.
\<close>

fun retain_vertical_loop :: "Collaborators \<Rightarrow> int set option \<Rightarrow> FormatToken option
    \<Rightarrow> FormatToken option \<Rightarrow> FormatToken option \<Rightarrow> FormatToken list
    \<Rightarrow> error + FormatToken list" where
  "retain_vertical_loop ops lines prev_tok prev_previous in_front [] = Inr []"
| "retain_vertical_loop ops lines prev_tok prev_previous in_front (cur_tok # rest) =
     (case RetainRequiredVerticalSpacingBetweenTokens ops cur_tok prev_tok prev_previous lines of
        Inl e \<Rightarrow> Inl e
      | Inr cur' \<Rightarrow>
          (case retain_vertical_loop ops lines (Some cur') in_front (Some cur') rest of
             Inl e \<Rightarrow> Inl e
           | Inr r \<Rightarrow> Inr (cur' # r)))"

definition RetainRequiredVerticalSpacing :: "Collaborators \<Rightarrow> UnwrappedLine
    \<Rightarrow> UnwrappedLine option \<Rightarrow> int set option \<Rightarrow> error + UnwrappedLine" where
  "RetainRequiredVerticalSpacing ops cur_uwline prev_uwline lines =
     (case (case prev_uwline of
              None \<Rightarrow> Inr (None, None)
            | Some p \<Rightarrow>
                (case uwline_last p of
                   Inl e \<Rightarrow> Inl e
                 | Inr l \<Rightarrow>
                     Inr (Some l, previous_token_at (tokens p) (length (tokens p) - 1)))) of
        Inl e \<Rightarrow> Inl e
      | Inr (prev_tok, prev_previous) \<Rightarrow>
          (case retain_vertical_loop ops lines prev_tok prev_previous None (tokens cur_uwline) of
             Inl e \<Rightarrow> Inl e
           | Inr toks \<Rightarrow> Inr (cur_uwline\<lparr>tokens := toks\<rparr>)))"

definition NO_BLANK_LINES :: int where "NO_BLANK_LINES = 1"
definition ONE_BLANK_LINE :: int where "ONE_BLANK_LINE = 2"
definition TWO_BLANK_LINES :: int where "TWO_BLANK_LINES = 3"

text \<open>\<^verbatim>\<open>_RetainVerticalSpacingBeforeComments\<close>.\<close>

fun retain_before_comments :: "Collaborators \<Rightarrow> FormatToken option \<Rightarrow> FormatToken list
    \<Rightarrow> FormatToken list" where
  "retain_before_comments ops prev_token [] = []"
| "retain_before_comments ops prev_token (tok # rest) =
     (let tok' =
            (case prev_token of
               None \<Rightarrow> tok
             | Some p \<Rightarrow>
                 if is_comment tok \<and>
                    lineno tok - count_char (tok_value tok) NL - lineno p > 1
                 then tok_AdjustNewlinesBefore ops ONE_BLANK_LINE tok
                 else tok)
      in tok' # retain_before_comments ops (Some tok') rest)"

definition RetainVerticalSpacingBeforeComments :: "Collaborators \<Rightarrow> UnwrappedLine
    \<Rightarrow> UnwrappedLine" where
  "RetainVerticalSpacingBeforeComments ops uwline =
     uwline\<lparr>tokens := retain_before_comments ops None (tokens uwline)\<rparr>"

section \<open>Emitting a line\<close>

text \<open>\<^verbatim>\<open>_EmitLineUnformatted\<close>: every remaining token is placed, after a newline when
  it was on a later line than the end of its predecessor.\<close>

function EmitLineUnformatted :: "Collaborators \<Rightarrow> UnwrappedLine \<Rightarrow> FormatDecisionState
    \<Rightarrow> error + FormatDecisionState \<times> UnwrappedLine" where
  "EmitLineUnformatted ops uwline st =
     (case next_token uwline st of
        None \<Rightarrow> Inr (st, uwline)
      | Some nxt \<Rightarrow>
          (case previous_token_at (tokens uwline) (next_index st) of
             None \<Rightarrow> Inl AttributeError
           | Some previous_token \<Rightarrow>
               (let previous_lineno =
                      (if is_multiline_string previous_token \<or> is_string previous_token
                       then lineno previous_token + count_char (tok_value previous_token) NL
                       else lineno previous_token);
                    newline =
                      (if is_continuation previous_token then False
                       else lineno nxt > previous_lineno)
                in case AddTokenToState ops uwline st newline False False of
                     (penalty, st', uwline') \<Rightarrow> EmitLineUnformatted ops uwline' st')))"
  by pat_completeness auto

text \<open>The loop of the fast path: every remaining token is placed without a newline.\<close>

function PlaceOnSingleLine :: "Collaborators \<Rightarrow> UnwrappedLine \<Rightarrow> FormatDecisionState
    \<Rightarrow> FormatDecisionState \<times> UnwrappedLine" where
  "PlaceOnSingleLine ops uwline st =
     (case next_token uwline st of
        None \<Rightarrow> (st, uwline)
      | Some nxt \<Rightarrow>
          (case AddTokenToState ops uwline st False False False of
             (penalty, st', uwline') \<Rightarrow> PlaceOnSingleLine ops uwline' st'))"
  by pat_completeness auto

section \<open>Lines that are not reflowed\<close>

text \<open>\<^verbatim>\<open>_LineContainsI18n\<close>. An empty option is false in Python.\<close>

definition LineContainsI18n :: "Collaborators \<Rightarrow> UnwrappedLine \<Rightarrow> bool" where
  "LineContainsI18n ops uwline =
     ((I18N_COMMENT (style ops) \<noteq> [] \<and>
       list_ex (\<lambda>tok. is_comment tok \<and> re_match ops (I18N_COMMENT (style ops)) (tok_value tok))
         (tokens uwline)) \<or>
      (I18N_FUNCTION_CALL (style ops) \<noteq> [] \<and>
       list_ex (\<lambda>index. tok_value (tokens uwline ! (index + 1)) = ''('' \<and>
                         tok_value (tokens uwline ! index) \<in> set (I18N_FUNCTION_CALL (style ops)))
         [0..<length (tokens uwline) - 1]))"

text \<open>\<^verbatim>\<open>_LineContainsPylintDisableLineTooLong\<close> and \<^verbatim>\<open>_LineHasContinuationMarkers\<close>.\<close>

definition LineContainsPylintDisableLineTooLong :: "Collaborators \<Rightarrow> UnwrappedLine \<Rightarrow> bool" where
  "LineContainsPylintDisableLineTooLong ops uwline =
     list_ex (\<lambda>tok. is_comment tok \<and> re_search_line_too_long ops (tok_value tok)) (tokens uwline)"

definition LineHasContinuationMarkers :: "UnwrappedLine \<Rightarrow> bool" where
  "LineHasContinuationMarkers uwline = list_ex is_continuation (tokens uwline)"

section \<open>The first token of a line\<close>

text \<open>\<^verbatim>\<open>_IsClassOrDef\<close> and \<^verbatim>\<open>_NoBlankLinesBeforeCurrentToken\<close>.\<close>

definition IsClassOrDef :: "UnwrappedLine \<Rightarrow> error + bool" where
  "IsClassOrDef uwline =
     (case uwline_first uwline of
        Inl e \<Rightarrow> Inl e
      | Inr f \<Rightarrow>
          if tok_value f \<in> {''class'', ''def''} then Inr True
          else Inr (map tok_value (take 2 (tokens uwline)) = [''async'', ''def'']))"

definition NoBlankLinesBeforeCurrentToken :: "string \<Rightarrow> FormatToken \<Rightarrow> FormatToken \<Rightarrow> bool" where
  "NoBlankLinesBeforeCurrentToken text cur_token prev_token =
     (let cur_token_lineno =
            (if is_comment cur_token
             then lineno cur_token - count_char (tok_value cur_token) NL
             else lineno cur_token);
          num_newlines = (if \<not> is_comment prev_token then count_char text NL else 0)
      in lineno prev_token + num_newlines = cur_token_lineno - 1)"

text \<open>The loop of \<^verbatim>\<open>_CalculateNumberOfNewlines\<close> that walks back over the comment
  lines in front of the current line.\<close>

fun comment_block_start :: "UnwrappedLine list \<Rightarrow> nat \<Rightarrow> nat" where
  "comment_block_start final_lines 0 = 0"
| "comment_block_start final_lines (Suc k) =
     (if \<not> line_is_comment (final_lines ! k) then Suc k
      else comment_block_start final_lines k)"

text \<open>The end of \<^verbatim>\<open>_CalculateNumberOfNewlines\<close>: the blank lines of the source are
  kept, up to one.\<close>

definition newlines_from_source :: "FormatToken \<Rightarrow> FormatToken \<Rightarrow> int" where
  "newlines_from_source first_tok prev_last_token =
     (let first_token_lineno =
            (if is_comment first_tok
             then lineno first_tok - count_char (tok_value first_tok) NL
             else lineno first_tok);
          prev_last_token_lineno =
            (if is_multiline_string prev_last_token
             then lineno prev_last_token + count_char (tok_value prev_last_token) NL
             else lineno prev_last_token)
      in if first_token_lineno - prev_last_token_lineno > 1 then ONE_BLANK_LINE
         else NO_BLANK_LINES)"

text \<open>
  \<^verbatim>\<open>_CalculateNumberOfNewlines\<close>. The previous line is the last of \<^verbatim>\<open>final_lines\<close>.
  The function returns the number of newlines together with the first token and the
  final lines, which it may change: it clears the \<^verbatim>\<open>newlines\<close> annotation of the
  first token and adjusts the newlines in front of a comment block.
\<close>

definition CalculateNumberOfNewlines :: "Collaborators \<Rightarrow> FormatToken \<Rightarrow> int
    \<Rightarrow> UnwrappedLine list \<Rightarrow> error + int \<times> FormatToken \<times> UnwrappedLine list" where
  "CalculateNumberOfNewlines ops first_tok indent_depth final_lines =
     (if final_lines = [] then Inr (0, first_tok\<lparr>newlines := None\<rparr>, final_lines)
      else
        (let prev_uwline = last final_lines in
         if is_docstring first_tok then
           (case uwline_first prev_uwline of
              Inl e \<Rightarrow> Inl e
            | Inr prev_first \<Rightarrow>
                if tok_value prev_first = ''class'' \<and>
                   BLANK_LINE_BEFORE_CLASS_DOCSTRING (style ops)
                then Inr (ONE_BLANK_LINE, first_tok, final_lines)
                else if startswith (tok_value prev_first) ''#'' \<and>
                        BLANK_LINE_BEFORE_MODULE_DOCSTRING (style ops)
                then Inr (ONE_BLANK_LINE, first_tok, final_lines)
                else Inr (NO_BLANK_LINES, first_tok, final_lines))
         else
           (case uwline_last prev_uwline of
              Inl e \<Rightarrow> Inl e
            | Inr prev_last_token \<Rightarrow>
                if is_docstring prev_last_token then
                  (if indent_depth = 0 \<and> tok_value first_tok \<in> {''class'', ''def'', ''async''}
                   then Inr (1 + BLANK_LINES_AROUND_TOP_LEVEL_DEFINITION (style ops),
                             first_tok, final_lines)
                   else if NoBlankLinesBeforeCurrentToken (tok_value prev_last_token) first_tok
                             prev_last_token
                   then Inr (NO_BLANK_LINES, first_tok, final_lines)
                   else Inr (ONE_BLANK_LINE, first_tok, final_lines))
                else if tok_value first_tok \<in> {''class'', ''def'', ''async'', ''@''} \<and>
                        indent_depth = 0
                then
                  (if \<not> disable prev_uwline \<and> is_comment prev_last_token \<and>
                      count_char (whitespace_prefix prev_last_token) NL \<noteq> 0 \<and>
                      NoBlankLinesBeforeCurrentToken (tok_value prev_last_token) first_tok
                        prev_last_token
                   then
                     (let index = comment_block_start final_lines (length final_lines - 1);
                          in_front = (if index = 0 then last final_lines
                                    else final_lines ! (index - 1))
                      in case uwline_first in_front of
                           Inl e \<Rightarrow> Inl e
                         | Inr before_first \<Rightarrow>
                             Inr (NO_BLANK_LINES, first_tok\<lparr>newlines := None\<rparr>,
                                  if tok_value before_first = ''@''
                                  then final_lines
                                         [index := map_first (tok_AdjustNewlinesBefore ops NO_BLANK_LINES)
                                                     (final_lines ! index)]
                                  else butlast final_lines @
                                         [map_last (tok_AdjustNewlinesBefore ops
                                              (1 + BLANK_LINES_AROUND_TOP_LEVEL_DEFINITION (style ops)))
                                            prev_uwline]))
                   else Inr (newlines_from_source first_tok prev_last_token, first_tok, final_lines))
                else if tok_value first_tok \<in> {''class'', ''def'', ''async'', ''@''} then
                  (case IsClassOrDef prev_uwline of
                     Inl e \<Rightarrow> Inl e
                   | Inr class_or_def \<Rightarrow>
                       if class_or_def \<and> \<not> BLANK_LINE_BEFORE_NESTED_CLASS_OR_DEF (style ops)
                       then Inr (NO_BLANK_LINES, first_tok\<lparr>newlines := None\<rparr>, final_lines)
                       else Inr (newlines_from_source first_tok prev_last_token, first_tok,
                                 final_lines))
                else Inr (newlines_from_source first_tok prev_last_token, first_tok,
                          final_lines))))"

text \<open>\<^verbatim>\<open>_FormatFirstToken\<close>.\<close>

definition FormatFirstToken :: "Collaborators \<Rightarrow> FormatToken \<Rightarrow> int \<Rightarrow> UnwrappedLine list
    \<Rightarrow> error + FormatToken \<times> UnwrappedLine list" where
  "FormatFirstToken ops first_tok indent_depth final_lines =
     (case CalculateNumberOfNewlines ops first_tok indent_depth final_lines of
        Inl e \<Rightarrow> Inl e
      | Inr (n, first_tok', final_lines') \<Rightarrow>
          Inr (tok_AddWhitespacePrefix ops n indent_depth first_tok', final_lines'))"

section \<open>The result of the search\<close>

text \<open>\<^verbatim>\<open>_ReconstructPath\<close>: the newline decisions on the path from the start node to
  the given node, replayed on the initial state without \<^verbatim>\<open>dry_run\<close>.\<close>

fun path_decisions :: "StateNode \<Rightarrow> bool list" where
  "path_decisions (StateNode st nl None) = []"
| "path_decisions (StateNode st nl (Some p)) = path_decisions p @ [nl]"

definition ReconstructPath :: "Collaborators \<Rightarrow> UnwrappedLine \<Rightarrow> FormatDecisionState
    \<Rightarrow> StateNode \<Rightarrow> FormatDecisionState \<times> UnwrappedLine" where
  "ReconstructPath ops uwline initial_state current =
     foldl (\<lambda>(st, uw) nl. case AddTokenToState ops uw st nl False False of
                             (penalty, st', uw') \<Rightarrow> (st', uw'))
       (initial_state, uwline) (path_decisions current)"

text \<open>\<^verbatim>\<open>_AnalyzeSolutionSpace\<close>: whether a solution was found, with the state and the
  line after the replay of the path.\<close>

definition AnalyzeSolutionSpace :: "Collaborators \<Rightarrow> UnwrappedLine \<Rightarrow> FormatDecisionState
    \<Rightarrow> bool \<times> FormatDecisionState \<times> UnwrappedLine" where
  "AnalyzeSolutionSpace ops uwline initial_state =
     (case search_loop ops uwline (initial_config initial_state) of
        None \<Rightarrow> (False, initial_state, uwline)
      | Some node \<Rightarrow>
          (case ReconstructPath ops uwline initial_state node of
             (st, uw) \<Rightarrow> (True, st, uw)))"

section \<open>Reformat\<close>

text \<open>
  The disabled branch of \<^verbatim>\<open>_SingleOrMergedLines\<close>: a disabled line takes the lines
  that follow it on its source line, after a semicolon unless it ends in a colon.
\<close>

fun absorb_lines :: "Collaborators \<Rightarrow> UnwrappedLine \<Rightarrow> UnwrappedLine list
    \<Rightarrow> error + UnwrappedLine \<times> UnwrappedLine list" where
  "absorb_lines ops uwline [] = Inr (uwline, [])"
| "absorb_lines ops uwline (nxt # rest) =
     (case uwline_last uwline of
        Inl e \<Rightarrow> Inl e
      | Inr lst \<Rightarrow>
          (let col = column lst + 2 in
           if line_lineno nxt \<noteq> line_lineno uwline then Inr (uwline, nxt # rest)
           else
             (let uwline' =
                    (if tok_value lst \<noteq> '':''
                     then uwline\<lparr>tokens := tokens uwline @ [SemiToken ops (line_lineno uwline) col]\<rparr>
                     else uwline)
              in absorb_lines ops (uwline'\<lparr>tokens := tokens uwline' @ tokens nxt\<rparr>) rest)))"

text \<open>One step of the generator \<^verbatim>\<open>_SingleOrMergedLines\<close> on the lines from
  \<^verbatim>\<open>index\<close> on: the line to format, the lines that remain, and \<^verbatim>\<open>last_was_merged\<close>.\<close>

definition next_line :: "Collaborators \<Rightarrow> UnwrappedLine \<Rightarrow> UnwrappedLine list \<Rightarrow> bool
    \<Rightarrow> error + UnwrappedLine \<times> UnwrappedLine list \<times> bool" where
  "next_line ops u us last_was_merged =
     (if disable u then
        (case absorb_lines ops u us of
           Inl e \<Rightarrow> Inl e
         | Inr (uwline, rest) \<Rightarrow> Inr (uwline, rest, last_was_merged))
      else if CanMergeMultipleLines ops (u # us) last_was_merged then
        (case us of
           [] \<Rightarrow> Inl IndexError
         | next_uwline # rest \<Rightarrow>
             (let merged = u\<lparr>tokens := tokens u @ tokens next_uwline\<rparr>
              in Inr (if length (tokens next_uwline) = 1 \<and>
                         is_multiline_string (hd (tokens next_uwline))
                      then merged\<lparr>disable := True\<rparr> else merged,
                      rest, True)))
      else Inr (u, us, False))"

text \<open>
  The body of the loop of \<^verbatim>\<open>Reformat\<close> up to the choice of the branch: the first
  token is formatted, the state is created and moved to the second token, and an enabled
  line gets its comments stripped and its vertical spacing retained.
\<close>

definition rstrip_value :: "FormatToken \<Rightarrow> FormatToken" where
  "rstrip_value t = t\<lparr>tok_value := rstrip (tok_value t)\<rparr>"

definition prepare_enabled :: "Collaborators \<Rightarrow> int set option \<Rightarrow> UnwrappedLine option
    \<Rightarrow> UnwrappedLine \<Rightarrow> error + UnwrappedLine" where
  "prepare_enabled ops lines prev_uwline uwline =
     (if disable uwline then Inr uwline
      else
        (case uwline_first uwline of
           Inl e \<Rightarrow> Inl e
         | Inr fst_tok \<Rightarrow>
             (let uw1 =
                    (if is_comment fst_tok then map_first rstrip_value uwline
                     else if is_comment (last (tokens uwline)) then map_last rstrip_value uwline
                     else uwline)
              in case (case prev_uwline of
                         None \<Rightarrow> Inr uw1
                       | Some p \<Rightarrow>
                           if disable p then
                             (case uwline_last p of
                                Inl e \<Rightarrow> Inl e
                              | Inr prev_last \<Rightarrow>
                                  (case RetainRequiredVerticalSpacingBetweenTokens ops
                                          (hd (tokens uw1)) (Some prev_last)
                                          (previous_token_at (tokens p) (length (tokens p) - 1))
                                          lines of
                                     Inl e \<Rightarrow> Inl e
                                   | Inr t \<Rightarrow> Inr (map_first (\<lambda>_. t) uw1)))
                           else Inr uw1) of
                   Inl e \<Rightarrow> Inl e
                 | Inr uw2 \<Rightarrow>
                     Inr (if list_ex is_comment (tokens uw2)
                          then RetainVerticalSpacingBeforeComments ops uw2 else uw2))))"

definition prepare_uwline :: "Collaborators \<Rightarrow> int set option \<Rightarrow> UnwrappedLine list
    \<Rightarrow> UnwrappedLine
    \<Rightarrow> error + UnwrappedLine list \<times> UnwrappedLine option \<times> int \<times> UnwrappedLine
          \<times> FormatDecisionState" where
  "prepare_uwline ops lines final_lines uwline =
     (case uwline_first uwline of
        Inl e \<Rightarrow> Inl e
      | Inr first_tok \<Rightarrow>
          (case FormatFirstToken ops first_tok (depth uwline) final_lines of
             Inl e \<Rightarrow> Inl e
           | Inr (first_tok', final_lines') \<Rightarrow>
               (let uwline1 = map_first (\<lambda>_. first_tok') uwline;
                    prev_uwline = (if final_lines' = [] then None else Some (last final_lines'));
                    indent_amt = INDENT_WIDTH (style ops) * depth uwline1;
                    st = MoveStateToNextToken (new_state ops uwline1 indent_amt)
                in case prepare_enabled ops lines prev_uwline uwline1 of
                     Inl e \<Rightarrow> Inl e
                   | Inr uwline2 \<Rightarrow> Inr (final_lines', prev_uwline, indent_amt, uwline2, st))))"

text \<open>The failsafe: a fresh state, the spacing of the source retained, the line emitted
  as it is.\<close>

definition emit_failsafe :: "Collaborators \<Rightarrow> UnwrappedLine option \<Rightarrow> int \<Rightarrow> UnwrappedLine
    \<Rightarrow> error + FormatDecisionState \<times> UnwrappedLine" where
  "emit_failsafe ops prev_uwline indent_amt uwline =
     (let st = MoveStateToNextToken (new_state ops uwline indent_amt)
      in case RetainRequiredVerticalSpacing ops (RetainHorizontalSpacing ops uwline)
                prev_uwline None of
           Inl e \<Rightarrow> Inl e
         | Inr uwline' \<Rightarrow> EmitLineUnformatted ops uwline' st)"

text \<open>The four branches of the body of the loop; the result is the line as it is
  appended to \<^verbatim>\<open>final_lines\<close>.\<close>

definition format_branch :: "Collaborators \<Rightarrow> int set option \<Rightarrow> UnwrappedLine option \<Rightarrow> int
    \<Rightarrow> UnwrappedLine \<Rightarrow> FormatDecisionState \<Rightarrow> error + UnwrappedLine" where
  "format_branch ops lines prev_uwline indent_amt uwline st =
     (if disable uwline \<or> LineHasContinuationMarkers uwline then
        (case RetainRequiredVerticalSpacing ops (RetainHorizontalSpacing ops uwline)
                prev_uwline lines of
           Inl e \<Rightarrow> Inl e
         | Inr uwline' \<Rightarrow> map_sum id snd (EmitLineUnformatted ops uwline' st))
      else if LineContainsPylintDisableLineTooLong ops uwline \<or> LineContainsI18n ops uwline then
        (case RetainRequiredVerticalSpacing ops uwline prev_uwline lines of
           Inl e \<Rightarrow> Inl e
         | Inr uwline' \<Rightarrow> map_sum id snd (EmitLineUnformatted ops uwline' st))
      else
        (case CanPlaceOnSingleLine (style ops) uwline of
           Inl e \<Rightarrow> Inl e
         | Inr fits \<Rightarrow>
             if fits \<and> \<not> list_ex must_split (tokens uwline)
             then Inr (snd (PlaceOnSingleLine ops uwline st))
             else
               (case AnalyzeSolutionSpace ops uwline st of
                  (found, st', uwline') \<Rightarrow>
                    if \<not> found
                    then map_sum id snd (emit_failsafe ops prev_uwline indent_amt uwline)
                    else Inr uwline')))"

definition format_uwline :: "Collaborators \<Rightarrow> int set option \<Rightarrow> UnwrappedLine list
    \<Rightarrow> UnwrappedLine \<Rightarrow> error + UnwrappedLine list" where
  "format_uwline ops lines final_lines uwline =
     (case prepare_uwline ops lines final_lines uwline of
        Inl e \<Rightarrow> Inl e
      | Inr (final_lines', prev_uwline, indent_amt, uwline', st) \<Rightarrow>
          (case format_branch ops lines prev_uwline indent_amt uwline' st of
             Inl e \<Rightarrow> Inl e
           | Inr formatted \<Rightarrow> Inr (final_lines' @ [formatted])))"

text \<open>The loop of \<^verbatim>\<open>Reformat\<close> over the lines that the generator yields.\<close>

function Reformat_loop :: "Collaborators \<Rightarrow> int set option \<Rightarrow> UnwrappedLine list \<Rightarrow> bool
    \<Rightarrow> UnwrappedLine list \<Rightarrow> error + UnwrappedLine list" where
  "Reformat_loop ops lines [] last_was_merged final_lines = Inr final_lines"
| "Reformat_loop ops lines (u # us) last_was_merged final_lines =
     (case next_line ops u us last_was_merged of
        Inl e \<Rightarrow> Inl e
      | Inr (uwline, rest, last_was_merged') \<Rightarrow>
          (case format_uwline ops lines final_lines uwline of
             Inl e \<Rightarrow> Inl e
           | Inr final_lines' \<Rightarrow> Reformat_loop ops lines rest last_was_merged' final_lines'))"
  by pat_completeness auto

definition Reformat :: "Collaborators \<Rightarrow> UnwrappedLine list \<Rightarrow> bool \<Rightarrow> int set option
    \<Rightarrow> error + string" where
  "Reformat ops uwlines verify lines =
     (case Reformat_loop ops lines uwlines False [] of
        Inl e \<Rightarrow> Inl e
      | Inr final_lines \<Rightarrow>
          (case AlignTrailingComments final_lines of
             Inl e \<Rightarrow> Inl e
           | Inr aligned \<Rightarrow> FormatFinalLines (VerifyCode ops) aligned verify))"

text \<open>One placement of the next token on the current line, committed to the token.\<close>

definition place_on_same_line :: "Collaborators \<Rightarrow> FormatDecisionState \<times> UnwrappedLine
    \<Rightarrow> FormatDecisionState \<times> UnwrappedLine" where
  "place_on_same_line ops cfg =
     (case cfg of (st, uwline) \<Rightarrow>
        (case AddTokenToState ops uwline st False False False of
           (penalty, st', uwline') \<Rightarrow> (st', uwline')))"

section \<open>Example inputs\<close>

definition sty0 :: Style where
  "sty0 =
     \<lparr>INDENT_WIDTH = 4, COLUMN_LIMIT = 79, I18N_COMMENT = [], I18N_FUNCTION_CALL = [],
      BLANK_LINE_BEFORE_CLASS_DOCSTRING = False, BLANK_LINE_BEFORE_MODULE_DOCSTRING = False,
      BLANK_LINES_AROUND_TOP_LEVEL_DEFINITION = 2,
      BLANK_LINE_BEFORE_NESTED_CLASS_OR_DEF = False\<rparr>"

text \<open>A plain token with the given text and the given length up to the end of the token.\<close>

definition mk_tok :: "string \<Rightarrow> int \<Rightarrow> FormatToken" where
  "mk_tok v n =
     \<lparr>tok_value = v, lineno = 1, column = 0, is_comment = False, is_string = False,
      is_multiline_string = False, is_docstring = False, is_pseudo_paren = False,
      is_continuation = False, is_pylint_comment = False, is_pytype_comment = False,
      must_split = False, total_length = n, whitespace_prefix = [],
      formatted_whitespace_prefix = [], spaces_required_before = SpacesInt 2,
      newlines = None\<rparr>"

definition mk_line :: "FormatToken list \<Rightarrow> UnwrappedLine" where
  "mk_line toks =
     \<lparr>tokens = toks, depth = 0, disable = False, line_lineno = 1, line_is_comment = False\<rparr>"

text \<open>Three short tokens, the second one carrying a hard split.\<close>

definition line_must_split :: UnwrappedLine where
  "line_must_split =
     mk_line [mk_tok ''a'' 1, (mk_tok ''b'' 3)\<lparr>must_split := True\<rparr>, mk_tok ''c'' 5]"

text \<open>A line that is a single, very long, pylint comment.\<close>

definition line_pylint_only :: UnwrappedLine where
  "line_pylint_only =
     mk_line [(mk_tok ''# pylint: disable=invalid-name'' 500)
                \<lparr>is_comment := True, is_pylint_comment := True\<rparr>]"

text \<open>
  An example verifier for texts of simple statements: the lines of the text that are not
  blank must all carry the same indentation, as they must after the dedent that
  precedes a compilation of a piece of code.
\<close>

definition same_indent_verifier :: "string \<Rightarrow> bool" where
  "same_indent_verifier s =
     (let ls = filter (\<lambda>l. strip l \<noteq> []) (split_on NL s);
          ind = map (\<lambda>l. length (takeWhile (\<lambda>c. c = SP) l)) ls
      in case ind of [] \<Rightarrow> True | i # is \<Rightarrow> list_all (\<lambda>j. j = i) is)"

text \<open>The statement \<^verbatim>\<open>y = 2\<close> at depth 0 followed by \<^verbatim>\<open>x = 1\<close> at depth 1, both
  with their final white space.\<close>

definition set_prefix :: "string \<Rightarrow> FormatToken \<Rightarrow> FormatToken" where
  "set_prefix w t = t\<lparr>whitespace_prefix := w, formatted_whitespace_prefix := w\<rparr>"

definition two_lines :: "UnwrappedLine list" where
  "two_lines =
     [mk_line [mk_tok ''y'' 1, set_prefix [SP] (mk_tok ''='' 3), set_prefix [SP] (mk_tok ''2'' 5)],
      (mk_line [set_prefix (NL # replicate 4 SP) (mk_tok ''x'' 1),
                set_prefix [SP] (mk_tok ''='' 3),
                set_prefix [SP] (mk_tok ''1'' 5)])\<lparr>depth := 1\<rparr>]"







text \<open>
  Example collaborators: a token must split when its hint says so, every token can split,
  every placement costs nothing and leaves the layout as it is, and a committed token
  gets one line feed or one space in front.
\<close>

definition ops0 :: Collaborators where
  "ops0 =
     \<lparr>style = sty0,
      initial_layout = (\<lambda>uwline first_indent.
         \<lparr>column_of = first_indent, indent_stack = [first_indent], bracket_stack = [],
          trailing_flag = False\<rparr>),
      must_split_of = (\<lambda>uwline st.
         case token_at (tokens uwline) (next_index st) of
           None \<Rightarrow> False
         | Some t \<Rightarrow> must_split t),
      can_split_of = (\<lambda>uwline st must_split_now. True),
      add_token_of = (\<lambda>uwline st newline must_split_now. (0, layout st)),
      place_token_of = (\<lambda>uwline st newline must_split_now.
         set_prefix (if newline then [NL] else [SP])),
      tok_AddWhitespacePrefix = (\<lambda>newlines_before indent_level.
         set_prefix (replicate (nat newlines_before) NL @ replicate (nat (4 * indent_level)) SP)),
      tok_AdjustNewlinesBefore = (\<lambda>n t.
         set_prefix (replicate (nat n) NL @ lstrip_newlines (whitespace_prefix t)) t),
      tok_RetainHorizontalSpacing = (\<lambda>toks i first_column depth. toks ! i),
      re_match = (\<lambda>pattern text. False),
      re_search_line_too_long = (\<lambda>text. False),
      CanMergeMultipleLines = (\<lambda>uwlines last_was_merged. False),
      SemiToken = (\<lambda>line col. (mk_tok '';'' 1)\<lparr>lineno := line, column := col\<rparr>),
      VerifyCode = (\<lambda>text. True)\<rparr>"


text \<open>The example collaborators with the example verifier.\<close>

definition ops_verify :: Collaborators where
  "ops_verify = ops0\<lparr>VerifyCode := same_indent_verifier\<rparr>"

text \<open>The line \<^verbatim>\<open>a b c\<close> and the state in front of its second token.\<close>

definition line_abc :: UnwrappedLine where
  "line_abc = mk_line [mk_tok ''a'' 1, mk_tok ''b'' 3, mk_tok ''c'' 5]"

definition lay0 :: Layout where
  "lay0 = \<lparr>column_of = 0, indent_stack = [0], bracket_stack = [], trailing_flag = False\<rparr>"

definition state_at :: "nat \<Rightarrow> FormatDecisionState" where
  "state_at i = \<lparr>next_index = i, layout = lay0, ignore_stack_for_comparison = False\<rparr>"

definition start_node :: StateNode where
  "start_node = StateNode (state_at 1) False None"

text \<open>The two successors of the start node, with equal penalties.\<close>

definition item_same_line :: QueueItem where
  "item_same_line = QueueItem (OrderedPenalty 0 1) (StateNode (state_at 2) False (Some start_node))"

definition item_new_line :: QueueItem where
  "item_new_line = QueueItem (OrderedPenalty 0 2) (StateNode (state_at 2) True (Some start_node))"

text \<open>The only successor of the start node in \<open>line_must_split\<close>, whose second token
  must split.\<close>

definition item_forced :: QueueItem where
  "item_forced = QueueItem (OrderedPenalty 0 1) (StateNode (state_at 2) True (Some start_node))"




section \<open>Termination of the alignment\<close>

lemma collect_block_length:
  "collect_block ls acc mx = Inr (all_pc, m) \<Longrightarrow> length acc \<le> length all_pc \<and> length all_pc \<le> length acc + length ls"
  by (induction ls acc mx rule: collect_block.induct) (auto split: if_splits prod.splits)

lemma collect_block_first:
  "collect_block (l # ls) [] mx = Inr (all_pc, m) \<Longrightarrow> 0 < length all_pc"
  by (auto split: if_splits prod.splits dest!: collect_block_length)

termination AlignTrailingComments
  by (relation "measure length") (auto simp del: collect_block.simps dest!: collect_block_first)


section \<open>Termination of the search\<close>

lemma queue_weight_heappush:
  "queue_weight uwline (heappush q item) = 3 ^ remaining uwline item + queue_weight uwline q"
  by (induction q) (auto simp: queue_weight_def heappush_def)

lemma AddNextStateToQueue_weight:
  assumes "AddNextStateToQueue ops uwline penalty node nl count q = (count', q')"
  shows "queue_weight uwline q' \<le> 3 ^ (length (tokens uwline) - Suc (next_index (node_state node))) + queue_weight uwline q"
  using assms
  by (auto simp: AddNextStateToQueue_def AddTokenToState_def Let_def queue_weight_heappush remaining_def
      split: if_splits prod.splits)

lemma search_step_decreases:
  assumes "search_step ops uwline (count, seen, q) = Continue (count', seen', q')"
  shows "queue_weight uwline q' < queue_weight uwline q"
proof -
  from assms obtain item rest where q: "q = item # rest"
    by (cases q) (auto simp: search_step_def)
  let ?node = "state_node item"
  from assms q have nt: "next_token uwline (node_state ?node) \<noteq> None"
    by (auto simp: search_step_def Let_def split: if_splits)
  then have lt: "next_index (node_state ?node) < length (tokens uwline)"
    by (auto simp: next_token_def token_at_def split: if_splits)
  define k where "k = length (tokens uwline) - Suc (next_index (node_state ?node))"
  have rem: "remaining uwline item = Suc k"
    using lt by (simp add: remaining_def k_def)
  have w: "queue_weight uwline q = 3 * 3 ^ k + queue_weight uwline rest"
    by (simp add: q queue_weight_def rem)
  define node' where "node' = (if count > 10000
                           then StateNode ((node_state ?node)\<lparr>ignore_stack_for_comparison := True\<rparr>)
                                  (node_newline ?node) (node_previous ?node)
                           else ?node)"
  have ni: "next_index (node_state node') = next_index (node_state ?node)"
    by (simp add: node'_def)
  show ?thesis
  proof (cases "list_ex (state_eq (node_state node')) seen")
    case True
    with assms q nt have "q' = rest"
      by (auto simp: search_step_def Let_def node'_def split: if_splits)
    then show ?thesis using w by simp
  next
    case False
    obtain c1 q1 where a1: "AddNextStateToQueue ops uwline (op_penalty (ordered_penalty item)) node' False count rest = (c1, q1)"
      by (cases "AddNextStateToQueue ops uwline (op_penalty (ordered_penalty item)) node' False count rest")
    obtain c2 q2 where a2: "AddNextStateToQueue ops uwline (op_penalty (ordered_penalty item)) node' True c1 q1 = (c2, q2)"
      by (cases "AddNextStateToQueue ops uwline (op_penalty (ordered_penalty item)) node' True c1 q1")
    from assms q nt False a1 a2 have q': "q' = q2"
      by (auto simp: search_step_def Let_def node'_def split: if_splits)
    from AddNextStateToQueue_weight [OF a1] AddNextStateToQueue_weight [OF a2]
    have "queue_weight uwline q2 \<le> 3 ^ k + (3 ^ k + queue_weight uwline rest)"
      by (simp add: ni k_def)
    also have "\<dots> < 3 * 3 ^ k + queue_weight uwline rest"
      by simp
    finally show ?thesis
      by (simp add: q' w)
  qed
qed

termination search_loop
  by (relation "measure (\<lambda>(ops, uwline, cfg). queue_weight uwline (snd (snd cfg)))")
     (auto dest: search_step_decreases)

section \<open>Termination of the loops of Reformat\<close>

lemma AddTokenToState_measure:
  assumes "AddTokenToState ops uwline st nl dry ms = (penalty, st', uwline')"
  shows "next_index st' = Suc (next_index st) \<and> length (tokens uwline') = length (tokens uwline)"
  using assms by (auto simp: AddTokenToState_def split: prod.splits if_splits)

lemma next_token_Some_less:
  "next_token uwline st = Some t \<Longrightarrow> next_index st < length (tokens uwline)"
  by (simp add: next_token_def token_at_def split: if_splits)

termination EmitLineUnformatted
  by (relation "measure (\<lambda>(ops, uwline, st). length (tokens uwline) - next_index st)")
     (auto dest!: AddTokenToState_measure [OF sym] next_token_Some_less)

termination PlaceOnSingleLine
  by (relation "measure (\<lambda>(ops, uwline, st). length (tokens uwline) - next_index st)")
     (auto dest!: AddTokenToState_measure [OF sym] next_token_Some_less)

lemma absorb_lines_length:
  "absorb_lines ops uwline us = Inr (uwline', rest) \<Longrightarrow> length rest \<le> length us"
proof (induction us arbitrary: uwline)
  case Nil
  then show ?case by simp
next
  case (Cons nxt us)
  from Cons.prems obtain lst where l: "uwline_last uwline = Inr lst"
    by (auto split: sum.splits)
  show ?case
  proof (cases "line_lineno nxt \<noteq> line_lineno uwline")
    case True
    with Cons.prems l show ?thesis by (auto simp: Let_def)
  next
    case False
    with Cons.prems l obtain uw where "absorb_lines ops uw us = Inr (uwline', rest)"
      by (auto simp: Let_def)
    from Cons.IH [OF this] show ?thesis by simp
  qed
qed

lemma next_line_length:
  "next_line ops u us lwm = Inr (uwline, rest, lwm') \<Longrightarrow> length rest \<le> length us"
  by (auto simp: next_line_def Let_def split: sum.splits if_splits list.splits
      dest: absorb_lines_length)

termination Reformat_loop
  by (relation "measure (\<lambda>(ops, lines, uwlines, lwm, final_lines). length uwlines)")
     (auto dest!: next_line_length)

section \<open>Properties of the single-line fast path\<close>

lemma slice_to_minus_one: "slice_to xs (- 1) = butlast xs"
  by (simp add: slice_to_def butlast_conv_take nat_diff_distrib')

lemma slice_to_minus_two: "slice_to xs (- 2) = butlast (butlast xs)"
  by (simp add: slice_to_def butlast_conv_take nat_diff_distrib' min_def numeral_2_eq_2)

lemma previous_token_at_last:
  "previous_token_at xs (length xs - Suc 0) =
     (if butlast xs = [] then None else Some (last (butlast xs)))"
  apply (cases xs rule: rev_cases; simp add: previous_token_at_def token_at_def)
  subgoal for ys y by (cases ys rule: rev_cases; simp add: nth_append)
  done

text \<open>
  Claim C6, as the code has it. Let \<open>body\<close> be the tokens of a line without its trailing
  pylint or pytype comment, if it ends in one. \<^verbatim>\<open>_CanPlaceOnSingleLine\<close> returns true
  exactly when \<open>body\<close> is empty, or the total length of the last token of \<open>body\<close>
  plus the indent (\<^verbatim>\<open>INDENT_WIDTH\<close> times the depth) is at most \<^verbatim>\<open>COLUMN_LIMIT\<close>
  and no token of \<open>body\<close> in front of that last one is a comment.
\<close>

theorem CanPlaceOnSingleLine_iff:
  assumes "tokens uwline \<noteq> []"
  shows "CanPlaceOnSingleLine sty uwline =
           (let toks = tokens uwline;
                body = (if is_pylint_comment (last toks) \<or> is_pytype_comment (last toks)
                        then butlast toks else toks)
            in Inr (body = [] \<or>
                    (total_length (last body) + INDENT_WIDTH sty * depth uwline
                       \<le> COLUMN_LIMIT sty \<and>
                     (\<forall>t \<in> set (butlast body). \<not> is_comment t))))"
  using assms
  by (auto simp: CanPlaceOnSingleLine_def uwline_last_def slice_to_minus_one
      slice_to_minus_two previous_token_at_last list_ex_iff Let_def)

theorem CanPlaceOnSingleLine_iff_witness:
  "tokens line_must_split \<noteq> [] \<and> CanPlaceOnSingleLine sty0 line_must_split = Inr True"
  using CanPlaceOnSingleLine_iff [of line_must_split sty0]
  by (simp add: line_must_split_def mk_line_def mk_tok_def sty0_def)

text \<open>
  Claim C6 as it is written fails: on \<open>line_must_split\<close> the function returns true
  although a token in front of the last one forces a split (\<^verbatim>\<open>must_split\<close>). The
  function looks at \<^verbatim>\<open>is_comment\<close>, never at \<^verbatim>\<open>must_split\<close>.
\<close>

theorem CanPlaceOnSingleLine_must_split_counterexample:
  "CanPlaceOnSingleLine sty0 line_must_split = Inr True \<and>
   \<not> (total_length (last (tokens line_must_split))
          + INDENT_WIDTH sty0 * depth line_must_split \<le> COLUMN_LIMIT sty0 \<and>
        \<not> list_ex must_split (butlast (tokens line_must_split)))"
  by (simp add: CanPlaceOnSingleLine_def line_must_split_def mk_line_def mk_tok_def sty0_def
      uwline_last_def slice_to_def)

text \<open>
  Claim C10. A line whose only token is a pylint or pytype comment can always be placed on
  a single line: neither the column limit nor the length of the comment is looked at.
\<close>

theorem CanPlaceOnSingleLine_only_suppressing_comment:
  assumes "tokens uwline = [t]" and "is_pylint_comment t \<or> is_pytype_comment t"
  shows "CanPlaceOnSingleLine sty uwline = Inr True"
  using assms
  by (auto simp: CanPlaceOnSingleLine_def uwline_last_def previous_token_at_def)

theorem CanPlaceOnSingleLine_only_suppressing_comment_witness:
  "COLUMN_LIMIT sty0 < total_length (last (tokens line_pylint_only)) \<and>
   CanPlaceOnSingleLine sty0 line_pylint_only = Inr True"
  using CanPlaceOnSingleLine_only_suppressing_comment
          [of line_pylint_only "last (tokens line_pylint_only)" sty0]
  by (simp add: line_pylint_only_def mk_line_def mk_tok_def sty0_def)

section \<open>Properties of the alignment of trailing comments\<close>




















section \<open>Properties of the search\<close>

lemma queue_inv_heappush:
  assumes "queue_inv count q"
  shows "queue_inv (Suc count) (heappush q (QueueItem (OrderedPenalty p count) n))"
proof -
  have "item_count (QueueItem (OrderedPenalty p count) n) \<notin> item_count ` set q"
    using assms by (auto simp: queue_inv_def list_all_iff item_count_def)
  then show ?thesis
    using assms
    by (auto simp: queue_inv_def heappush_def sorted_insort_key distinct_insort list_all_iff
        set_insort_key distinct_map inj_on_def item_count_def intro: less_SucI)
qed

lemma queue_inv_AddNextStateToQueue:
  assumes "queue_inv count q"
    and "AddNextStateToQueue ops uwline penalty node nl count q = (count', q')"
  shows "queue_inv count' q'"
  using assms queue_inv_heappush [OF assms(1)]
  by (auto simp: AddNextStateToQueue_def Let_def split: if_splits prod.splits)

lemma queue_inv_tl: "queue_inv count (item # rest) \<Longrightarrow> queue_inv count rest"
  by (simp add: queue_inv_def)

lemma search_step_cases:
  assumes "search_step ops uwline (count, seen, q) = Continue (count', seen', q')"
  obtains (skip) item rest where "q = item # rest" "count' = count" "seen' = seen" "q' = rest"
  | (expand) item rest node' c1 q1 where "q = item # rest"
      "node_state node' = (if count > 10000 then (node_state (state_node item))\<lparr>ignore_stack_for_comparison := True\<rparr> else node_state (state_node item))"
      "node_newline node' = node_newline (state_node item)"
      "node_previous node' = node_previous (state_node item)"
      "\<not> list_ex (state_eq (node_state node')) seen"
      "next_token uwline (node_state (state_node item)) \<noteq> None"
      "AddNextStateToQueue ops uwline (op_penalty (ordered_penalty item)) node' False count rest = (c1, q1)"
      "AddNextStateToQueue ops uwline (op_penalty (ordered_penalty item)) node' True c1 q1 = (count', q')"
      "seen' = node_state node' # seen"
proof -
  from assms obtain item rest where q: "q = item # rest"
    by (cases q) (auto simp: search_step_def)
  define node' where "node' = (if count > 10000
                           then StateNode ((node_state (state_node item))\<lparr>ignore_stack_for_comparison := True\<rparr>)
                                  (node_newline (state_node item)) (node_previous (state_node item))
                           else state_node item)"
  from assms q have nt: "next_token uwline (node_state (state_node item)) \<noteq> None"
    by (auto simp: search_step_def Let_def split: if_splits)
  show ?thesis
  proof (cases "list_ex (state_eq (node_state node')) seen")
    case True
    with assms q nt have "count' = count" "seen' = seen" "q' = rest"
      by (auto simp: search_step_def Let_def node'_def split: if_splits)
    with q show ?thesis by (rule skip)
  next
    case False
    obtain c1 q1 where a1: "AddNextStateToQueue ops uwline (op_penalty (ordered_penalty item)) node' False count rest = (c1, q1)"
      by (cases "AddNextStateToQueue ops uwline (op_penalty (ordered_penalty item)) node' False count rest")
    obtain c2 q2 where a2: "AddNextStateToQueue ops uwline (op_penalty (ordered_penalty item)) node' True c1 q1 = (c2, q2)"
      by (cases "AddNextStateToQueue ops uwline (op_penalty (ordered_penalty item)) node' True c1 q1")
    from assms q nt False a1 a2 have r: "count' = c2" "q' = q2" "seen' = node_state node' # seen"
      by (auto simp: search_step_def Let_def node'_def split: if_splits)
    show ?thesis
      by (rule expand [OF q _ _ _ False nt a1 a2 [unfolded r(1,2) [symmetric]] r(3)])
         (simp_all add: node'_def)
  qed
qed

lemma queue_inv_step:
  assumes "queue_inv count q"
    and "search_step ops uwline (count, seen, q) = Continue (count', seen', q')"
  shows "queue_inv count' q'"
  using assms(2)
proof (cases rule: search_step_cases)
  case (skip item rest)
  with assms(1) show ?thesis by (auto dest: queue_inv_tl)
next
  case (expand item rest node' c1 q1)
  from assms(1) expand(1) have "queue_inv count rest" by (auto dest: queue_inv_tl)
  from queue_inv_AddNextStateToQueue [OF queue_inv_AddNextStateToQueue [OF this expand(7)] expand(8)]
  show ?thesis .
qed

lemma reachable_queue_inv:
  assumes "reachable ops uwline initial_state cfg"
  shows "queue_inv (fst cfg) (snd (snd cfg))"
  using assms
proof (induction rule: reachable.induct)
  case reachable_initial
  show ?case
    by (simp add: initial_config_def queue_inv_def heappush_def item_count_def)
next
  case (reachable_step cfg cfg')
  obtain c s q where cfg: "cfg = (c, s, q)" by (cases cfg)
  obtain c' s' q' where cfg': "cfg' = (c', s', q')" by (cases cfg')
  from queue_inv_step [of c q ops uwline s c' s' q'] reachable_step cfg cfg'
  show ?case by simp
qed

text \<open>
  Claim C2. In every configuration that the search reaches, the item at the head of the
  queue, which is the next one popped, comes strictly before every other item of the
  queue in the order of penalty first and count second: of two items with the same
  penalty the one with the smaller count, which was inserted earlier, is popped first.
  Counts in the queue are pairwise distinct and below the running count, so that the
  order of two items never depends on their nodes. The search is a function of the
  initial state and of the collaborators, so that two runs on the same input make the
  same expansions and give the same result.
\<close>

theorem pop_order:
  assumes "reachable ops uwline initial_state (count, seen, item # rest)"
    and "other \<in> set rest"
  shows "priority item < priority other \<and>
         (op_penalty (ordered_penalty item) = op_penalty (ordered_penalty other) \<longrightarrow>
            item_count item < item_count other) \<and>
         item_count item \<noteq> item_count other \<and> item_count other < count"
proof -
  from reachable_queue_inv [OF assms(1)] have inv: "queue_inv count (item # rest)"
    by simp
  then have le: "priority item \<le> priority other"
    using assms(2) by (auto simp: queue_inv_def)
  from inv assms(2) have ne: "item_count item \<noteq> item_count other"
    by (auto simp: queue_inv_def)
  from inv assms(2) have lt: "item_count other < count"
    by (auto simp: queue_inv_def list_all_iff)
  from ne have "priority item \<noteq> priority other"
    by (auto simp: priority_def item_count_def)
  with le have "priority item < priority other" by simp
  then show ?thesis
    using ne lt by (auto simp: priority_def item_count_def less_prod_def)
qed

theorem pop_order_witness:
  "reachable ops0 line_abc (state_at 1) (3, [state_at 1], [item_same_line, item_new_line]) \<and>
   op_penalty (ordered_penalty item_same_line) = op_penalty (ordered_penalty item_new_line) \<and>
   item_count item_same_line < item_count item_new_line \<and>
   priority item_same_line < priority item_new_line"
proof -
  have s: "search_step ops0 line_abc (initial_config (state_at 1)) =
             Continue (3, [state_at 1], [item_same_line, item_new_line])"
    by code_simp
  have r: "reachable ops0 line_abc (state_at 1) (3, [state_at 1], [item_same_line, item_new_line])"
    by (rule reachable_step [OF reachable_initial s])
  have e: "op_penalty (ordered_penalty item_same_line) = op_penalty (ordered_penalty item_new_line)"
    by code_simp
  show ?thesis
    using pop_order [OF r, of item_new_line] r e by simp
qed

lemma AddNextStateToQueue_cases:
  assumes "AddNextStateToQueue ops uwline penalty node nl count q = (count', q')"
  obtains (rejected) "count' = count" "q' = q"
      "nl \<and> \<not> CanSplit ops uwline (node_state node) (MustSplit ops uwline (node_state node)) \<or>
       \<not> nl \<and> MustSplit ops uwline (node_state node)"
  | (pushed) delta st where "count' = Suc count"
      "q' = heappush q (QueueItem (OrderedPenalty (penalty + delta) count) (StateNode st nl (Some node)))"
      "nl \<longrightarrow> CanSplit ops uwline (node_state node) (MustSplit ops uwline (node_state node))"
      "\<not> nl \<longrightarrow> \<not> MustSplit ops uwline (node_state node)"
      "next_index st = Suc (next_index (node_state node))"
  using assms
  by (auto simp: AddNextStateToQueue_def AddTokenToState_def Let_def split: if_splits prod.splits)

lemma edge_ok_AddNextStateToQueue:
  assumes "list_all (\<lambda>item. edge_ok ops uwline (state_node item)) q"
    and "AddNextStateToQueue ops uwline penalty node nl count q = (count', q')"
  shows "list_all (\<lambda>item. edge_ok ops uwline (state_node item)) q'"
  using assms(2)
proof (cases rule: AddNextStateToQueue_cases)
  case rejected
  with assms(1) show ?thesis by simp
next
  case (pushed delta st)
  have "edge_ok ops uwline (StateNode st nl (Some node))"
    using pushed(3,4) by (simp add: edge_ok_def)
  with assms(1) show ?thesis
    by (simp add: pushed(2) heappush_def list_all_iff set_insort_key)
qed

lemma edge_ok_step:
  assumes "list_all (\<lambda>item. edge_ok ops uwline (state_node item)) q"
    and "search_step ops uwline (count, seen, q) = Continue (count', seen', q')"
  shows "list_all (\<lambda>item. edge_ok ops uwline (state_node item)) q'"
  using assms(2)
proof (cases rule: search_step_cases)
  case (skip item rest)
  with assms(1) show ?thesis by simp
next
  case (expand item rest node' c1 q1)
  from assms(1) expand(1) have "list_all (\<lambda>item. edge_ok ops uwline (state_node item)) rest" by simp
  from edge_ok_AddNextStateToQueue [OF edge_ok_AddNextStateToQueue [OF this expand(7)] expand(8)]
  show ?thesis .
qed

lemma reachable_edge_ok:
  assumes "reachable ops uwline initial_state cfg"
  shows "list_all (\<lambda>item. edge_ok ops uwline (state_node item)) (snd (snd cfg))"
  using assms
proof (induction rule: reachable.induct)
  case reachable_initial
  show ?case
    by (simp add: initial_config_def heappush_def edge_ok_def)
next
  case (reachable_step cfg cfg')
  obtain c s q where cfg: "cfg = (c, s, q)" by (cases cfg)
  obtain c' s' q' where cfg': "cfg' = (c', s', q')" by (cases cfg')
  from edge_ok_step [of ops uwline q c s c' s' q'] reachable_step cfg cfg'
  show ?case by simp
qed

text \<open>
  Claim C3. \<^verbatim>\<open>_AddNextStateToQueue\<close> returns the count unchanged and pushes nothing for
  an edge without newline when the state must split, and for an edge with newline when
  the state cannot split. Hence every node in a queue that the search reaches was entered
  by an edge that its predecessor allows.
\<close>

theorem no_invalid_edge:
  "(newline \<and> \<not> CanSplit ops uwline (node_state previous_node)
                    (MustSplit ops uwline (node_state previous_node)) \<or>
    \<not> newline \<and> MustSplit ops uwline (node_state previous_node) \<longrightarrow>
      AddNextStateToQueue ops uwline penalty previous_node newline count p_queue
        = (count, p_queue)) \<and>
   (reachable ops uwline initial_state (n, seen, q) \<longrightarrow>
      list_all (\<lambda>item. edge_ok ops uwline (state_node item)) q)"
  using reachable_edge_ok [of ops uwline initial_state "(n, seen, q)"]
  by (auto simp: AddNextStateToQueue_def Let_def)

theorem no_invalid_edge_witness:
  "MustSplit ops0 line_must_split (node_state start_node) \<and>
   AddNextStateToQueue ops0 line_must_split 0 start_node False 1 [] = (1, []) \<and>
   reachable ops0 line_must_split (state_at 1) (2, [state_at 1], [item_forced]) \<and>
   list_all (\<lambda>item. edge_ok ops0 line_must_split (state_node item)) [item_forced]"
proof -
  have m: "MustSplit ops0 line_must_split (node_state start_node)"
    by code_simp
  have s: "search_step ops0 line_must_split (initial_config (state_at 1)) =
             Continue (2, [state_at 1], [item_forced])"
    by code_simp
  have r: "reachable ops0 line_must_split (state_at 1) (2, [state_at 1], [item_forced])"
    by (rule reachable_step [OF reachable_initial s])
  show ?thesis
    using no_invalid_edge [of False ops0 line_must_split start_node 0 1 "[]" "state_at 1" 2
        "[state_at 1]" "[item_forced]"] m r
    by simp
qed








section \<open>Properties of Reformat\<close>

declare EmitLineUnformatted.simps [simp del] PlaceOnSingleLine.simps [simp del]

lemma next_token_None_iff: "next_token uwline st = None \<longleftrightarrow> length (tokens uwline) \<le> next_index st"
  by (auto simp: next_token_def token_at_def)

lemma PlaceOnSingleLine_funpow:
  "length (tokens uwline) - next_index st = n \<Longrightarrow>
   PlaceOnSingleLine ops uwline st = (place_on_same_line ops ^^ n) (st, uwline)"
proof (induction n arbitrary: uwline st)
  case 0
  then have "next_token uwline st = None"
    by (simp add: next_token_None_iff)
  then show ?case by (simp add: PlaceOnSingleLine.simps)
next
  case (Suc n)
  then obtain t where t: "next_token uwline st = Some t"
    by (cases "next_token uwline st") (auto simp: next_token_None_iff)
  obtain p st' uwline' where a: "AddTokenToState ops uwline st False False False = (p, st', uwline')"
    by (cases "AddTokenToState ops uwline st False False False")
  from AddTokenToState_measure [OF a] Suc.prems
  have "length (tokens uwline') - next_index st' = n" by simp
  from Suc.IH [OF this] have "PlaceOnSingleLine ops uwline' st' = (place_on_same_line ops ^^ n) (st', uwline')" .
  moreover have "PlaceOnSingleLine ops uwline st = PlaceOnSingleLine ops uwline' st'"
    by (subst PlaceOnSingleLine.simps) (simp add: t a)
  moreover have "place_on_same_line ops (st, uwline) = (st', uwline')"
    using a by (simp add: place_on_same_line_def)
  ultimately show ?case
    by (simp add: funpow_swap1)
qed


lemma Reformat_loop_continues:
  assumes "next_line ops u us last_was_merged = Inr (uwline0, rest, lwm')"
    and "prepare_uwline ops lines final_lines uwline0 =
           Inr (final_lines', prev_uwline, indent_amt, uwline, st)"
    and "format_branch ops lines prev_uwline indent_amt uwline st = Inr formatted"
  shows "Reformat_loop ops lines (u # us) last_was_merged final_lines =
           Reformat_loop ops lines rest lwm' (final_lines' @ [formatted])"
  using assms by (simp add: format_uwline_def)

text \<open>
  Claim C5. Let the generator yield a line, and let the line reach the choice of the
  branch as \<open>uwline\<close> with the state \<open>st\<close>. When the line is not disabled, has no
  continuation marker, is exempt neither for i18n nor for a pylint comment on the line
  length, satisfies \<^verbatim>\<open>_CanPlaceOnSingleLine\<close> and has no token that must split, then
  the line that is appended to the final lines is \<open>uwline\<close> after one
  \<^verbatim>\<open>AddTokenToState(newline=False, dry_run=False)\<close> for each of its remaining tokens:
  no token is placed after a newline, the search is not run, and the loop goes on with
  the remaining lines.
\<close>

theorem single_line_fast_path:
  assumes "next_line ops u us last_was_merged = Inr (uwline0, rest, lwm')"
    and "prepare_uwline ops lines final_lines uwline0 =
           Inr (final_lines', prev_uwline, indent_amt, uwline, st)"
    and "\<not> disable uwline" and "\<not> LineHasContinuationMarkers uwline"
    and "\<not> LineContainsPylintDisableLineTooLong ops uwline"
    and "\<not> LineContainsI18n ops uwline"
    and "CanPlaceOnSingleLine (style ops) uwline = Inr True"
    and "\<not> list_ex must_split (tokens uwline)"
  shows "format_branch ops lines prev_uwline indent_amt uwline st =
           Inr (snd ((place_on_same_line ops ^^ (length (tokens uwline) - next_index st))
                       (st, uwline))) \<and>
         Reformat_loop ops lines (u # us) last_was_merged final_lines =
           Reformat_loop ops lines rest lwm'
             (final_lines' @
              [snd ((place_on_same_line ops ^^ (length (tokens uwline) - next_index st))
                      (st, uwline))])"
proof -
  have b: "format_branch ops lines prev_uwline indent_amt uwline st =
           Inr (snd ((place_on_same_line ops ^^ (length (tokens uwline) - next_index st))
                       (st, uwline)))"
    using assms(3-8)
    by (simp add: format_branch_def PlaceOnSingleLine_funpow [OF refl])
  from Reformat_loop_continues [OF assms(1,2) b] b show ?thesis by simp
qed

theorem single_line_fast_path_witness:
  "next_line ops0 line_abc [] False = Inr (line_abc, [], False) \<and>
   prepare_uwline ops0 None [] line_abc = Inr ([], None, 0, line_abc, state_at 1) \<and>
   \<not> disable line_abc \<and> \<not> LineHasContinuationMarkers line_abc \<and>
   \<not> LineContainsPylintDisableLineTooLong ops0 line_abc \<and>
   \<not> LineContainsI18n ops0 line_abc \<and>
   CanPlaceOnSingleLine (style ops0) line_abc = Inr True \<and>
   \<not> list_ex must_split (tokens line_abc) \<and>
   format_branch ops0 None None 0 line_abc (state_at 1) =
     Inr (snd ((place_on_same_line ops0 ^^ (length (tokens line_abc) - next_index (state_at 1)))
                 (state_at 1, line_abc))) \<and>
   map formatted_whitespace_prefix
     (tokens (snd ((place_on_same_line ops0 ^^ (length (tokens line_abc) - next_index (state_at 1)))
                     (state_at 1, line_abc)))) = [[], [SP], [SP]] \<and>
   Reformat ops0 [line_abc] False None = Inr (''a b c'' @ [NL])"
proof -
  have h1: "next_line ops0 line_abc [] False = Inr (line_abc, [], False)"
    by code_simp
  have h2: "prepare_uwline ops0 None [] line_abc = Inr ([], None, 0, line_abc, state_at 1)"
    by code_simp
  have h3: "\<not> disable line_abc" by code_simp
  have h4: "\<not> LineHasContinuationMarkers line_abc" by code_simp
  have h5: "\<not> LineContainsPylintDisableLineTooLong ops0 line_abc" by code_simp
  have h6: "\<not> LineContainsI18n ops0 line_abc" by code_simp
  have h7: "CanPlaceOnSingleLine (style ops0) line_abc = Inr True" by code_simp
  have h8: "\<not> list_ex must_split (tokens line_abc)" by code_simp
  have r: "map formatted_whitespace_prefix
     (tokens (snd ((place_on_same_line ops0 ^^ (length (tokens line_abc) - next_index (state_at 1)))
                     (state_at 1, line_abc)))) = [[], [SP], [SP]]"
    by code_simp
  have t: "Reformat ops0 [line_abc] False None = Inr (''a b c'' @ [NL])"
    by code_simp
  show ?thesis
    using single_line_fast_path [OF h1 h2 h3 h4 h5 h6 h7 h8] h1 h2 h3 h4 h5 h6 h7 h8 r t
    by blast
qed



section \<open>Properties of the final text\<close>

lemma formats_format_line: "formats l \<Longrightarrow> format_line l = Inr (line_text l)"
  by (simp add: formats_def line_text_def split: sum.splits)


lemma format_lines_formats:
  assumes "\<forall>l \<in> set ls. formats l"
  shows "format_lines V verify ls acc =
     (if verify \<and> (\<exists>l \<in> set ls. \<not> V (line_text l)) then Inl InternalError
      else Inr (acc @ map line_text ls))"
  using assms
proof (induction ls arbitrary: acc)
  case Nil
  then show ?case by simp
next
  case (Cons l ls)
  have fl: "format_line l = Inr (line_text l)"
    using Cons.prems by (simp add: formats_format_line)
  have ih: "format_lines V verify ls (acc @ [line_text l]) =
     (if verify \<and> (\<exists>l \<in> set ls. \<not> V (line_text l)) then Inl InternalError
      else Inr ((acc @ [line_text l]) @ map line_text ls))"
    using Cons.prems by (intro Cons.IH) simp
  show ?case
    using ih by (cases verify; cases "V (line_text l)") (auto simp: fl)
qed


lemma format_tokens_plain:
  assumes "\<forall>i \<in> set is. \<not> is_pseudo_paren (toks ! i)"
  shows "format_tokens toks is =
           Inr (concat (map (\<lambda>i. formatted_whitespace_prefix (toks ! i) @ tok_value (toks ! i)) is))"
  using assms by (induction "is") (auto simp: token_text_def Let_def)

lemma formats_plain:
  assumes "\<forall>t \<in> set (tokens l). \<not> is_pseudo_paren t"
  shows "formats l"
  using assms by (simp add: formats_def format_line_def format_tokens_plain)

text \<open>
  Claim C8, as the code has it. Let the loop of \<^verbatim>\<open>Reformat\<close> and the alignment of
  the comments return lines that can all be formatted. With \<^verbatim>\<open>verify\<close> set,
  \<^verbatim>\<open>Reformat\<close> raises the error of the verifier exactly when the text of some single
  line fails \<^verbatim>\<open>VerifyCode\<close>: the verifier is called on the text of each line, never
  on the composed text. In every other case, and always when \<^verbatim>\<open>verify\<close> is false, the
  composed text is returned and the verifier has no influence.
\<close>

theorem Reformat_verify:
  assumes "Reformat_loop ops lines uwlines False [] = Inr final_lines"
    and "AlignTrailingComments final_lines = Inr aligned"
    and "\<forall>l \<in> set aligned. formats l"
  shows "Reformat ops uwlines verify lines =
     (if verify \<and> (\<exists>l \<in> set aligned. \<not> VerifyCode ops (line_text l)) then Inl InternalError
      else Inr (concat (map line_text aligned) @ [NL]))"
  using assms(1,2)
  by (simp add: Reformat_def FormatFinalLines_def format_lines_formats [OF assms(3)])

theorem Reformat_verify_witness:
  "Reformat_loop ops_verify None two_lines False [] = Inr two_lines \<and>
   AlignTrailingComments two_lines = Inr two_lines \<and>
   list_all formats two_lines \<and>
   Reformat ops_verify two_lines True None = Inr (''y = 2'' @ [NL] @ ''    x = 1'' @ [NL])"
proof -
  have h1: "Reformat_loop ops_verify None two_lines False [] = Inr two_lines"
    by code_simp
  have h2: "AlignTrailingComments two_lines = Inr two_lines"
    by code_simp
  have h3: "\<forall>l \<in> set two_lines. formats l"
    by code_simp
  have e: "(if True \<and> (\<exists>l \<in> set two_lines. \<not> VerifyCode ops_verify (line_text l))
            then Inl InternalError else Inr (concat (map line_text two_lines) @ [NL]))
           = Inr (''y = 2'' @ [NL] @ ''    x = 1'' @ [NL])"
    by code_simp
  show ?thesis
    using trans [OF Reformat_verify [OF h1 h2 h3, of True] e] h1 h2 h3
    by (simp add: list_all_iff)
qed

text \<open>
  Claim C8 as it is written fails: with \<^verbatim>\<open>verify\<close> set, \<^verbatim>\<open>Reformat\<close> returns the
  composed text of \<open>two_lines\<close> although the example verifier rejects that text (its
  second line is indented under a simple statement). Each line on its own passes.
\<close>

theorem Reformat_composed_text_counterexample:
  "Reformat ops_verify two_lines True None = Inr (''y = 2'' @ [NL] @ ''    x = 1'' @ [NL]) \<and>
   \<not> VerifyCode ops_verify (''y = 2'' @ [NL] @ ''    x = 1'' @ [NL])"
  by code_simp




end
